theory Spec2Isabelle
  imports Complex_Main
begin

section \<open>Numbers, points and statuses\<close>

text \<open>
  The bowing metrics of \<^verbatim>\<open>src/bow-metrics.js\<close> and the session aggregator of
  \<^verbatim>\<open>src/app.js\<close> compute on JavaScript numbers. A finite number is modelled as a
  \<^typ>\<open>real\<close>, with exact arithmetic: rounding error, overflow and signed zeros are
  outside the model. Every division of the evaluators and of the aggregator stands behind
  a guard that keeps its divisor away from zero, with one exception (the asymmetry
  quotient of the shoulder evaluator); there the quotient is a \<open>jsnum\<close>: \<open>NaN\<close> and
  the infinities are values of the model, and every comparison with \<open>NaN\<close> is false,
  as in the source language. \<open>angleBetween3\<close> alone is modelled in the arithmetic of
  doubles, with rounding and overflow (see its section).

  \<^verbatim>\<open>Math.round\<close> rounds to the nearest integer, a tie going up.
\<close>

definition Math_round :: "real \<Rightarrow> int" where
  "Math_round v = \<lfloor>v + 1 / 2\<rfloor>"

datatype jsnum = Finite real | PosInfinity | NegInfinity | NaN

definition js_div :: "real \<Rightarrow> real \<Rightarrow> jsnum" where
  "js_div a b =
     (if b \<noteq> 0 then Finite (a / b)
      else if 0 < a then PosInfinity
      else if a < 0 then NegInfinity
      else NaN)"

fun js_gt :: "jsnum \<Rightarrow> real \<Rightarrow> bool" where
  "js_gt (Finite v) c = (c < v)"
| "js_gt PosInfinity c = True"
| "js_gt NegInfinity c = False"
| "js_gt NaN c = False"

text \<open>The status strings \<^verbatim>\<open>'good'\<close>, \<^verbatim>\<open>'warn'\<close> and \<^verbatim>\<open>'bad'\<close>.\<close>

datatype status = Good | Warn | Bad

text \<open>
  A landmark \<^verbatim>\<open>{x, y}\<close>. The fields are named \<open>px\<close> and \<open>py\<close>; a wrist-trail
  sample \<^verbatim>\<open>{x, y, t}\<close> extends the record by the timestamp.
\<close>

record point =
  px :: real
  py :: real

record trail_sample = point +
  pt :: real

definition distance :: "'a point_scheme \<Rightarrow> 'b point_scheme \<Rightarrow> real" where
  "distance a b =
     (let dx = px a - px b;
          dy = py a - py b
      in sqrt (dx * dx + dy * dy))"

section \<open>M2: bow zone and bow distribution\<close>

datatype zone = Frog | Middle | Tip

record bow_zone =
  zone :: zone
  extensionRatio :: real

definition computeBowZone ::
  "'a point_scheme \<Rightarrow> 'b point_scheme \<Rightarrow> 'c point_scheme \<Rightarrow> bow_zone" where
  "computeBowZone shoulder elbow wrist =
     (let upperArm = distance shoulder elbow;
          forearm = distance elbow wrist;
          armLength = upperArm + forearm
      in if armLength < 0.01 then \<lparr>zone = Middle, extensionRatio = 0.5\<rparr>
         else
           (let wristShoulderDist = distance shoulder wrist;
                ratio = wristShoulderDist / armLength;
                z = (if ratio < 0.55 then Frog
                     else if ratio < 0.78 then Middle
                     else Tip)
            in \<lparr>zone = z, extensionRatio = real_of_int (Math_round (ratio * 100)) / 100\<rparr>))"

text \<open>The order of the zones along the bow, from the frog (arm folded) to the tip.\<close>

fun zone_rank :: "zone \<Rightarrow> nat" where
  "zone_rank Frog = 0"
| "zone_rank Middle = 1"
| "zone_rank Tip = 2"

text \<open>
  The usage counters \<^verbatim>\<open>{tip, middle, frog}\<close>: each starts at zero and is only ever
  incremented, so a counter is a natural number. The labels of a distribution are the
  strings of the source, in its order of appearance: \<^verbatim>\<open>'--'\<close> (no data), the default
  label (even), tip-heavy, frog-heavy, middle-centred and full bow.
\<close>

record bow_distribution =
  tip :: nat
  middle :: nat
  frog :: nat

datatype dist_label = NoData | Even | TipHeavy | FrogHeavy | MiddleCentred | FullBow

record distribution_percent =
  tipPct :: int
  midPct :: int
  frogPct :: int
  dist_label :: dist_label

definition computeDistributionPercent :: "bow_distribution \<Rightarrow> distribution_percent" where
  "computeDistributionPercent counts =
     (let total = tip counts + middle counts + frog counts
      in if total = 0 then \<lparr>tipPct = 33, midPct = 34, frogPct = 33, dist_label = NoData\<rparr>
         else
           (let tp = Math_round (real (tip counts) / real total * 100);
                fp = Math_round (real (frog counts) / real total * 100);
                mp = 100 - tp - fp;
                mx = max tp (max mp fp);
                lab = (if 50 \<le> mx then
                         (if tp = mx then TipHeavy
                          else if fp = mx then FrogHeavy
                          else MiddleCentred)
                       else if mx - min tp (min mp fp) < 15 then FullBow
                       else Even)
            in \<lparr>tipPct = tp, midPct = mp, frogPct = fp, dist_label = lab\<rparr>))"

section \<open>M3: elbow height\<close>

text \<open>
  The labels of the elbow evaluator: too high, too low, slightly low and OK; the
  session report writes "proper" where the evaluator writes OK. The hip landmarks may
  be missing (\<^verbatim>\<open>if (rHip)\<close>), so they are optional.
\<close>

datatype elbow_label = TooHigh | TooLow | SlightlyLow | ElbowOK | ElbowProper

record elbow_height =
  relativeHeight :: real
  elbow_status :: status
  elbow_label :: elbow_label

definition computeElbowHeight ::
  "'a point_scheme \<Rightarrow> 'b point_scheme \<Rightarrow> 'c point_scheme option \<Rightarrow> 'd point_scheme option
     \<Rightarrow> elbow_height" where
  "computeElbowHeight shoulder elbow rHip lHip =
     (let shoulderElbowDy = py elbow - py shoulder;
          bodyScale0 = (case rHip of Some h \<Rightarrow> \<bar>py h - py shoulder\<bar> | None \<Rightarrow> 0.3);
          bodyScale = (if bodyScale0 < 0.01 then 0.3 else bodyScale0);
          rel = shoulderElbowDy / bodyScale;
          (st, lab) = (if rel < - 0.15 then (Warn, TooHigh)
                       else if 0.5 < rel then (Bad, TooLow)
                       else if 0.35 < rel then (Warn, SlightlyLow)
                       else (Good, ElbowOK))
      in \<lparr>relativeHeight = real_of_int (Math_round (rel * 100)) / 100,
          elbow_status = st, elbow_label = lab\<rparr>)"

section \<open>M4: shoulder tension\<close>

text \<open>
  The labels of the shoulder evaluator: relaxed, tense, slightly tense and left/right
  difference; \<open>CalibrationPending\<close> is the label \<open>processFrame\<close> writes while no
  baseline is set. The baseline is \<^verbatim>\<open>null\<close> or a number.

  The asymmetry quotient is the one division of the module that no guard protects: with
  both shoulder-ear distances zero it is \<open>0 / 0\<close>, so it is a \<open>jsnum\<close>.
\<close>

datatype shoulder_label = Relaxed | Tense | SlightlyTense | Asymmetric | CalibrationPending

record shoulder_tension =
  tension :: int
  shoulder_status :: status
  shoulder_label :: shoulder_label
  currentDist :: real

definition computeShoulderTension ::
  "'a point_scheme \<Rightarrow> 'b point_scheme \<Rightarrow> 'c point_scheme \<Rightarrow> 'd point_scheme \<Rightarrow> real option
     \<Rightarrow> shoulder_tension" where
  "computeShoulderTension rShoulder rEar lShoulder lEar baseDist =
     (let rDist = distance rShoulder rEar;
          lDist = distance lShoulder lEar;
          avgDist = (rDist + lDist) / 2;
          (tn, st, lab) =
            (case baseDist of
               None \<Rightarrow> (0, Good, Relaxed)
             | Some b \<Rightarrow>
                 if 0 < b then
                   (let change = (b - avgDist) / b;
                        tn' = max 0 (Math_round (change * 100))
                    in if 0.25 < change then (tn', Bad, Tense)
                       else if 0.15 < change then (tn', Warn, SlightlyTense)
                       else (tn', Good, Relaxed))
                 else (0, Good, Relaxed));
          asymmetry = js_div \<bar>rDist - lDist\<bar> (max rDist lDist);
          (st', lab') = (if js_gt asymmetry 0.2 \<and> st = Good then (Warn, Asymmetric) else (st, lab))
      in \<lparr>tension = tn, shoulder_status = st', shoulder_label = lab', currentDist = avgDist\<rparr>)"

text \<open>
  No baseline is set when the argument is \<^verbatim>\<open>null\<close> or not positive; \<open>asymmetric\<close> is
  the left/right test of the evaluator, on the two shoulder-ear distances.
\<close>

definition no_baseline :: "real option \<Rightarrow> bool" where
  "no_baseline baseDist = (case baseDist of None \<Rightarrow> True | Some b \<Rightarrow> \<not> 0 < b)"

definition asymmetric ::
  "'a point_scheme \<Rightarrow> 'b point_scheme \<Rightarrow> 'c point_scheme \<Rightarrow> 'd point_scheme \<Rightarrow> bool" where
  "asymmetric rShoulder rEar lShoulder lEar =
     js_gt (js_div \<bar>distance rShoulder rEar - distance lShoulder lEar\<bar>
                   (max (distance rShoulder rEar) (distance lShoulder lEar))) 0.2"

text \<open>
  The shoulder entry that \<open>processFrame\<close> stores in the metrics record: the evaluator's
  result, replaced by the calibration-pending entry while the baseline of the session
  state is \<^verbatim>\<open>null\<close>.
\<close>

definition processFrame_shoulder ::
  "real option \<Rightarrow> 'a point_scheme \<Rightarrow> 'b point_scheme \<Rightarrow> 'c point_scheme \<Rightarrow> 'd point_scheme
     \<Rightarrow> shoulder_tension" where
  "processFrame_shoulder baseShoulderEarDist rShoulder rEar lShoulder lEar =
     (let shoulderTension = computeShoulderTension rShoulder rEar lShoulder lEar baseShoulderEarDist
      in if baseShoulderEarDist = None
         then \<lparr>tension = 0, shoulder_status = Good, shoulder_label = CalibrationPending,
               currentDist = currentDist shoulderTension\<rparr>
         else shoulderTension)"

section \<open>Geometry: the angle at a vertex\<close>

text \<open>
  \<^verbatim>\<open>Math.min\<close> and \<^verbatim>\<open>Math.max\<close> with a finite first argument, on numbers that may
  not be finite. Neither rounds.
\<close>

fun Math_min :: "real \<Rightarrow> jsnum \<Rightarrow> jsnum" where
  "Math_min c (Finite v) = Finite (min c v)"
| "Math_min c PosInfinity = Finite c"
| "Math_min c NegInfinity = NegInfinity"
| "Math_min c NaN = NaN"

fun Math_max :: "real \<Rightarrow> jsnum \<Rightarrow> jsnum" where
  "Math_max c (Finite v) = Finite (max c v)"
| "Math_max c PosInfinity = PosInfinity"
| "Math_max c NegInfinity = Finite c"
| "Math_max c NaN = NaN"

text \<open>
  \<open>angleBetween3\<close> is modelled in the arithmetic of doubles, because its two guards
  exist for what that arithmetic does: a quotient \<open>0 / 0\<close>, and a cosine that rounding
  pushes beyond 1. The arithmetic is a parameter: \<open>fl_round\<close> rounds a real to a double
  (with gradual underflow, and with no bound on the exponent upwards), \<open>Math_PI\<close> is the
  constant \<^verbatim>\<open>Math.PI\<close> and \<open>acos_impl\<close> is what \<^verbatim>\<open>Math.acos\<close> returns on \<open>[-1, 1]\<close>, which
  the language leaves to the implementation. A result beyond \<^verbatim>\<open>Number.MAX_VALUE\<close>
  overflows to an infinity. Coordinates are finite numbers. Zeros carry no sign: the
  only divisor that can be zero here is a product of two square roots, a positive zero.
\<close>

record arithmetic =
  fl_round :: "real \<Rightarrow> real"
  Math_PI :: real
  acos_impl :: "real \<Rightarrow> real"

definition MAX_VALUE :: real where
  "MAX_VALUE = (2 ^ 53 - 1) * 2 ^ 971"

definition fl :: "arithmetic \<Rightarrow> real \<Rightarrow> jsnum" where
  "fl ar v =
     (if MAX_VALUE < fl_round ar v then PosInfinity
      else if fl_round ar v < - MAX_VALUE then NegInfinity
      else Finite (fl_round ar v))"

text \<open>
  Product, sum, square root and quotient of doubles, with the special values: an
  infinity times zero, the difference of two infinities, the root of a negative number
  and the quotients \<open>0 / 0\<close> and of two infinities are \<open>NaN\<close>.
\<close>

fun js_sign :: "jsnum \<Rightarrow> real" where
  "js_sign (Finite v) = sgn v"
| "js_sign PosInfinity = 1"
| "js_sign NegInfinity = - 1"
| "js_sign NaN = 0"

definition signed_infinity :: "real \<Rightarrow> jsnum" where
  "signed_infinity s = (if 0 < s then PosInfinity else NegInfinity)"

fun fl_mul :: "arithmetic \<Rightarrow> jsnum \<Rightarrow> jsnum \<Rightarrow> jsnum" where
  "fl_mul ar (Finite x) (Finite y) = fl ar (x * y)"
| "fl_mul ar NaN y = NaN"
| "fl_mul ar x NaN = NaN"
| "fl_mul ar x y =
     (if js_sign x * js_sign y = 0 then NaN else signed_infinity (js_sign x * js_sign y))"

fun fl_add :: "arithmetic \<Rightarrow> jsnum \<Rightarrow> jsnum \<Rightarrow> jsnum" where
  "fl_add ar (Finite x) (Finite y) = fl ar (x + y)"
| "fl_add ar NaN y = NaN"
| "fl_add ar x NaN = NaN"
| "fl_add ar PosInfinity NegInfinity = NaN"
| "fl_add ar NegInfinity PosInfinity = NaN"
| "fl_add ar PosInfinity y = PosInfinity"
| "fl_add ar NegInfinity y = NegInfinity"
| "fl_add ar x PosInfinity = PosInfinity"
| "fl_add ar x NegInfinity = NegInfinity"

fun fl_sqrt :: "arithmetic \<Rightarrow> jsnum \<Rightarrow> jsnum" where
  "fl_sqrt ar (Finite v) = (if v < 0 then NaN else Finite (fl_round ar (sqrt v)))"
| "fl_sqrt ar PosInfinity = PosInfinity"
| "fl_sqrt ar NegInfinity = NaN"
| "fl_sqrt ar NaN = NaN"

fun fl_div :: "arithmetic \<Rightarrow> jsnum \<Rightarrow> jsnum \<Rightarrow> jsnum" where
  "fl_div ar (Finite x) (Finite y) =
     (if y \<noteq> 0 then fl ar (x / y)
      else if x = 0 then NaN
      else signed_infinity x)"
| "fl_div ar NaN y = NaN"
| "fl_div ar x NaN = NaN"
| "fl_div ar (Finite x) y = Finite 0"
| "fl_div ar x (Finite y) = signed_infinity (js_sign x * (if y < 0 then - 1 else 1))"
| "fl_div ar x y = NaN"

fun Math_acos :: "arithmetic \<Rightarrow> jsnum \<Rightarrow> jsnum" where
  "Math_acos ar (Finite v) = (if - 1 \<le> v \<and> v \<le> 1 then Finite (acos_impl ar v) else NaN)"
| "Math_acos ar PosInfinity = NaN"
| "Math_acos ar NegInfinity = NaN"
| "Math_acos ar NaN = NaN"

definition angleBetween3 ::
  "arithmetic \<Rightarrow> 'a point_scheme \<Rightarrow> 'b point_scheme \<Rightarrow> 'c point_scheme \<Rightarrow> jsnum" where
  "angleBetween3 ar a b c =
     (let bax = fl ar (px a - px b); bay = fl ar (py a - py b);
          bcx = fl ar (px c - px b); bcy = fl ar (py c - py b);
          dot = fl_add ar (fl_mul ar bax bcx) (fl_mul ar bay bcy);
          magBA = fl_sqrt ar (fl_add ar (fl_mul ar bax bax) (fl_mul ar bay bay));
          magBC = fl_sqrt ar (fl_add ar (fl_mul ar bcx bcx) (fl_mul ar bcy bcy))
      in if magBA = Finite 0 \<or> magBC = Finite 0 then Finite 0
         else fl_div ar
                (fl_mul ar
                   (Math_acos ar (Math_max (- 1) (Math_min 1
                      (fl_div ar dot (fl_mul ar magBA magBC)))))
                   (Finite 180))
                (Finite (Math_PI ar)))"

text \<open>
  What the theorem below uses of the arithmetic, all of it true of round-to-nearest
  doubles (\<open>admissible_double_arith\<close>): rounding is monotone and symmetric, the powers
  of two from \<open>2 powi - 1074\<close> to \<open>2 powi 1023\<close> are doubles, no double lies strictly
  between zero and \<open>2 powi - 1074\<close>, \<^verbatim>\<open>Math.PI\<close> lies between 2 and 4 and converts to
  exactly 180 degrees, and \<^verbatim>\<open>Math.acos\<close> returns a value between 0 and \<^verbatim>\<open>Math.PI\<close>.
  A point is in range when its coordinates are at most \<open>2 ^ 500\<close> in magnitude.
\<close>

definition admissible :: "arithmetic \<Rightarrow> bool" where
  "admissible ar =
     ((\<forall>v w. v \<le> w \<longrightarrow> fl_round ar v \<le> fl_round ar w)
      \<and> (\<forall>v. fl_round ar (- v) = - fl_round ar v)
      \<and> (\<forall>n. - 1074 \<le> n \<and> n \<le> 1023 \<longrightarrow> fl_round ar (2 powi n) = 2 powi n)
      \<and> (\<forall>v. fl_round ar v \<noteq> 0 \<longrightarrow> 2 powi (- 1074) \<le> \<bar>fl_round ar v\<bar>)
      \<and> 2 \<le> Math_PI ar \<and> Math_PI ar \<le> 4
      \<and> fl_round ar (fl_round ar (Math_PI ar * 180) / Math_PI ar) = 180
      \<and> (\<forall>v. - 1 \<le> v \<and> v \<le> 1 \<longrightarrow> 0 \<le> acos_impl ar v \<and> acos_impl ar v \<le> Math_PI ar))"

definition in_range :: "'a point_scheme \<Rightarrow> bool" where
  "in_range p = (\<bar>px p\<bar> \<le> 2 ^ 500 \<and> \<bar>py p\<bar> \<le> 2 ^ 500)"

text \<open>
  The arithmetic of IEEE 754 doubles: round to nearest, ties to the even significand.
  The unit in the last place of a double in \<open>[2 powi k, 2 powi (k + 1))\<close> is
  \<open>2 powi (k - 52)\<close>, and \<open>2 powi - 1074\<close> below the normal range. \<^verbatim>\<open>Math.PI\<close> is the
  double \<open>884279719003555 / 2 ^ 48\<close>, the one next to \<open>pi\<close>; \<^verbatim>\<open>Math.acos\<close> is taken as
  the correctly rounded inverse cosine, capped at \<^verbatim>\<open>Math.PI\<close>.
\<close>

definition round_half_even :: "real \<Rightarrow> int" where
  "round_half_even q =
     (let f = \<lfloor>q\<rfloor>; r = q - of_int f
      in if r < 1 / 2 then f
         else if 1 / 2 < r then f + 1
         else if even f then f else f + 1)"

definition ulp_exponent :: "real \<Rightarrow> int" where
  "ulp_exponent v = max (\<lfloor>log 2 \<bar>v\<bar>\<rfloor> - 52) (- 1074)"

definition round_double :: "real \<Rightarrow> real" where
  "round_double v =
     sgn v * (of_int (round_half_even (\<bar>v\<bar> / 2 powi ulp_exponent v)) * 2 powi ulp_exponent v)"

definition double_arith :: arithmetic where
  "double_arith =
     \<lparr>fl_round = round_double,
      Math_PI = 884279719003555 / 2 ^ 48,
      acos_impl = (\<lambda>v. min (884279719003555 / 2 ^ 48) (round_double (arccos v)))\<rparr>"

section \<open>M1: bow straightness\<close>

text \<open>
  The result \<^verbatim>\<open>{score, curvature, status}\<close>; the score is \<^verbatim>\<open>null\<close> and the curvature
  is absent when the analyzer has no opinion.
\<close>

record straightness_result =
  score :: "int option"
  curvature :: "real option"
  straightness_status :: status

definition no_score :: straightness_result where
  "no_score = \<lparr>score = None, curvature = None, straightness_status = Good\<rparr>"

text \<open>
  The segmentation loop, from index 1 on: \<open>prev\<close> is the sample before the current
  one, \<open>strokes\<close> the closed strokes, \<open>cur\<close> the stroke still being built and
  \<open>prevDx\<close> the last horizontal step that was not noise.
\<close>

fun segment ::
  "'a point_scheme \<Rightarrow> 'a point_scheme list \<Rightarrow> 'a point_scheme list list \<Rightarrow> 'a point_scheme list
     \<Rightarrow> real \<Rightarrow> 'a point_scheme list list \<times> 'a point_scheme list" where
  "segment prev [] strokes cur prevDx = (strokes, cur)"
| "segment prev (p # ps) strokes cur prevDx =
     (let dx = px p - px prev
      in if \<bar>dx\<bar> < 0.002 then segment p ps strokes (cur @ [p]) prevDx
         else if prevDx \<noteq> 0 \<and> sgn dx \<noteq> sgn prevDx
           then segment p ps (if 8 \<le> length cur then strokes @ [cur] else strokes) [p] dx
           else segment p ps strokes (cur @ [p]) dx)"

definition strokes_of :: "'a point_scheme list \<Rightarrow> 'a point_scheme list list" where
  "strokes_of wristTrail =
     (case wristTrail of
        [] \<Rightarrow> []
      | p0 # ps \<Rightarrow>
          (let (strokes, currentStroke) = segment p0 ps [] [p0] 0
           in if 8 \<le> length currentStroke then strokes @ [currentStroke] else strokes))"

text \<open>
  The least-squares fit of one stroke and the root-mean-square error of its points:
  from the fitted line, or from the mean of \<open>x\<close> when the fit is degenerate.
\<close>

definition stroke_rmse :: "'a point_scheme list \<Rightarrow> real" where
  "stroke_rmse stroke =
     (let n = real (length stroke);
          sumX = (\<Sum>p\<leftarrow>stroke. px p);
          sumY = (\<Sum>p\<leftarrow>stroke. py p);
          sumXX = (\<Sum>p\<leftarrow>stroke. px p * px p);
          sumXY = (\<Sum>p\<leftarrow>stroke. px p * py p);
          denom = n * sumXX - sumX * sumX
      in if \<bar>denom\<bar> < 1 / 10 ^ 10 then
           (let meanX = sumX / n;
                sse = (\<Sum>p\<leftarrow>stroke. (px p - meanX) * (px p - meanX))
            in sqrt (sse / n))
         else
           (let slope = (n * sumXY - sumX * sumY) / denom;
                intercept = (sumY - slope * sumX) / n;
                sse = (\<Sum>p\<leftarrow>stroke. (py p - (slope * px p + intercept))
                                     * (py p - (slope * px p + intercept)))
            in sqrt (sse / n)))"

definition computeBowStraightness :: "'a point_scheme list \<Rightarrow> straightness_result" where
  "computeBowStraightness wristTrail =
     (if length wristTrail < 10 then no_score
      else
        (let strokes = strokes_of wristTrail
         in if length strokes = 0 then no_score
            else
              (let stroke = strokes ! (length strokes - 1);
                   n = length stroke;
                   rmse = stroke_rmse stroke;
                   strokeLen = distance (stroke ! 0) (stroke ! (n - 1))
               in if strokeLen < 0.03 then no_score
                  else
                    (let curv = (rmse / strokeLen) * 100;
                         sc = max 0 (min 100 (100 - curv * 5));
                         st = (if 5 < curv then Bad else if 2 < curv then Warn else Good)
                     in \<lparr>score = Some (Math_round sc), curvature = Some curv,
                         straightness_status = st\<rparr>))))"

text \<open>
  The segmentation without the length test: every stroke that a sign flip of the
  horizontal step closes is kept, and the pending stroke comes last. The strokes that the
  analyzer keeps are those of at least 8 samples (\<open>strokes_of_filter\<close> below).
\<close>

fun segment_all ::
  "'a point_scheme \<Rightarrow> 'a point_scheme list \<Rightarrow> 'a point_scheme list list \<Rightarrow> 'a point_scheme list
     \<Rightarrow> real \<Rightarrow> 'a point_scheme list list" where
  "segment_all prev [] done_strokes cur prevDx = done_strokes @ [cur]"
| "segment_all prev (p # ps) done_strokes cur prevDx =
     (let dx = px p - px prev
      in if \<bar>dx\<bar> < 0.002 then segment_all p ps done_strokes (cur @ [p]) prevDx
         else if prevDx \<noteq> 0 \<and> sgn dx \<noteq> sgn prevDx
           then segment_all p ps (done_strokes @ [cur]) [p] dx
           else segment_all p ps done_strokes (cur @ [p]) dx)"

definition all_strokes :: "'a point_scheme list \<Rightarrow> 'a point_scheme list list" where
  "all_strokes wristTrail =
     (case wristTrail of [] \<Rightarrow> [] | p0 # ps \<Rightarrow> segment_all p0 ps [] [p0] 0)"

text \<open>
  Wrist trails for the evaluations below, one sample every 16 ms: three samples; ten
  samples that reverse direction at every step; ten samples of one stroke of length 0.9
  that waves around a horizontal line; ten samples of one stroke of length 0.027.
\<close>

definition trail_of :: "(real \<times> real) list \<Rightarrow> trail_sample list" where
  "trail_of xys = map (\<lambda>(i, (x, y)). \<lparr>px = x, py = y, pt = real i * 16\<rparr>) (enumerate 0 xys)"

definition short_trail :: "trail_sample list" where
  "short_trail = trail_of [(0, 0), (0.1, 0), (0.2, 0)]"

definition zigzag_trail :: "trail_sample list" where
  "zigzag_trail = trail_of [(0, 0), (0.1, 0), (0, 0), (0.1, 0), (0, 0), (0.1, 0), (0, 0),
                            (0.1, 0), (0, 0), (0.1, 0)]"



section \<open>Advice\<close>

text \<open>
  The metrics record that \<open>processFrame\<close> hands to the advice selector. Each entry may
  be missing (the record starts empty), and the selector tests for it before it reads
  a status or a label. The eight coaching strings and the two positive ones are the
  constructors of \<open>advice\<close>, in the order of the source.
\<close>

record metrics =
  m_straightness :: "straightness_result option"
  m_distribution :: "distribution_percent option"
  m_bowZone :: "bow_zone option"
  m_elbow :: "elbow_height option"
  m_shoulder :: "shoulder_tension option"

datatype advice =
    StraightnessBad | StraightnessWarn
  | ElbowTooLow | ElbowTooHigh | ElbowRaise
  | ShoulderBad | ShoulderAsymmetric | ShoulderRaised
  | PositiveFullBow | PositiveGeneric

definition generateAdvice :: "metrics \<Rightarrow> advice" where
  "generateAdvice m =
     (let issues1 =
            (case m_straightness m of
               None \<Rightarrow> []
             | Some s \<Rightarrow>
                 if straightness_status s = Bad then [StraightnessBad]
                 else if straightness_status s = Warn then [StraightnessWarn]
                 else []);
          issues2 = issues1 @
            (case m_elbow m of
               None \<Rightarrow> []
             | Some e \<Rightarrow>
                 if elbow_status e = Bad then [ElbowTooLow]
                 else if elbow_label e = TooHigh then [ElbowTooHigh]
                 else if elbow_status e = Warn then [ElbowRaise]
                 else []);
          issues = issues2 @
            (case m_shoulder m of
               None \<Rightarrow> []
             | Some s \<Rightarrow>
                 if shoulder_status s = Bad then [ShoulderBad]
                 else if shoulder_status s = Warn then
                   (if shoulder_label s = Asymmetric then [ShoulderAsymmetric]
                    else [ShoulderRaised])
                 else [])
      in if length issues = 0 then
           (case m_distribution m of
              None \<Rightarrow> PositiveGeneric
            | Some d \<Rightarrow> if dist_label d = FullBow then PositiveFullBow else PositiveGeneric)
         else issues ! 0)"

text \<open>
  The priority lookup in the words of the specification: the metrics are inspected in
  the order straightness, elbow, shoulder, and the first one whose status is not good
  decides. \<open>first_issue\<close> walks such an ordered table of (status, message) pairs.
\<close>

fun first_issue :: "(status \<times> advice) list \<Rightarrow> advice option" where
  "first_issue [] = None"
| "first_issue ((st, msg) # rest) = (if st \<noteq> Good then Some msg else first_issue rest)"

definition straightness_entry :: "metrics \<Rightarrow> (status \<times> advice) list" where
  "straightness_entry m =
     (case m_straightness m of
        None \<Rightarrow> []
      | Some s \<Rightarrow> [(straightness_status s,
                     if straightness_status s = Bad then StraightnessBad else StraightnessWarn)])"

definition elbow_entry :: "metrics \<Rightarrow> (status \<times> advice) list" where
  "elbow_entry m =
     (case m_elbow m of
        None \<Rightarrow> []
      | Some e \<Rightarrow> [(elbow_status e,
                     if elbow_status e = Bad then ElbowTooLow
                     else if elbow_label e = TooHigh then ElbowTooHigh
                     else ElbowRaise)])"

definition shoulder_entry :: "metrics \<Rightarrow> (status \<times> advice) list" where
  "shoulder_entry m =
     (case m_shoulder m of
        None \<Rightarrow> []
      | Some s \<Rightarrow> [(shoulder_status s,
                     if shoulder_status s = Bad then ShoulderBad
                     else if shoulder_label s = Asymmetric then ShoulderAsymmetric
                     else ShoulderRaised)])"

definition has_label :: "metrics \<Rightarrow> dist_label \<Rightarrow> bool" where
  "has_label m l = (case m_distribution m of None \<Rightarrow> False | Some d \<Rightarrow> dist_label d = l)"

text \<open>
  The lookup as the specification words it, with the positive message special-cased for
  a distribution labelled balanced (the default label) or full bow.
\<close>

definition advice_as_specified :: "metrics \<Rightarrow> advice" where
  "advice_as_specified m =
     (case first_issue (straightness_entry m @ elbow_entry m @ shoulder_entry m) of
        Some msg \<Rightarrow> msg
      | None \<Rightarrow> if has_label m Even \<or> has_label m FullBow then PositiveFullBow
                else PositiveGeneric)"

text \<open>The same lookup with the positive message special-cased for full bow only.\<close>

definition advice_by_priority :: "metrics \<Rightarrow> advice" where
  "advice_by_priority m =
     (case first_issue (straightness_entry m @ elbow_entry m @ shoulder_entry m) of
        Some msg \<Rightarrow> msg
      | None \<Rightarrow> if has_label m FullBow then PositiveFullBow else PositiveGeneric)"

text \<open>
  An elbow entry as \<open>computeElbowHeight\<close> produces it carries the label "too high" only
  together with a status that is not good.
\<close>

definition elbow_consistent :: "metrics \<Rightarrow> bool" where
  "elbow_consistent m =
     (case m_elbow m of
        None \<Rightarrow> True
      | Some e \<Rightarrow> if elbow_label e = TooHigh then elbow_status e \<noteq> Good else True)"

text \<open>
  A metrics record in which all three statuses are good, with a given distribution label
  and a given elbow label.
\<close>

definition good_metrics :: "dist_label \<Rightarrow> elbow_label \<Rightarrow> metrics" where
  "good_metrics dl el =
     \<lparr>m_straightness = Some \<lparr>score = Some 90, curvature = None, straightness_status = Good\<rparr>,
      m_distribution = Some \<lparr>tipPct = 45, midPct = 30, frogPct = 25, dist_label = dl\<rparr>,
      m_bowZone = Some \<lparr>zone = Middle, extensionRatio = 0.6\<rparr>,
      m_elbow = Some \<lparr>relativeHeight = 0.1, elbow_status = Good, elbow_label = el\<rparr>,
      m_shoulder = Some \<lparr>tension = 0, shoulder_status = Good, shoulder_label = Relaxed,
                         currentDist = 0.2\<rparr>\<rparr>"

section \<open>Session aggregator\<close>

text \<open>
  One entry of the diagnostic log, as \<open>processFrame\<close> pushes it: the straightness is
  a rounded score or \<^verbatim>\<open>null\<close>, the tension a rounded percentage.
\<close>

record log_entry =
  straightness :: "int option"
  straightnessStatus :: status
  elbowHeight :: real
  elbowStatus :: status
  elbowLabel :: elbow_label
  shoulderTension :: int
  shoulderStatus :: status
  shoulderLabel :: shoulder_label
  bowZone :: zone
  logged_extensionRatio :: real

text \<open>
  The four commentary strings of the report, by score band, and the values the report
  renders. \<open>showDiagnoseReport\<close> writes them into the page; the model returns them, or
  \<open>NoPoseDetected\<close> for the message it shows on an empty log.
\<close>

datatype overall_comment = Excellent | GoodBasics | NeedsWork | NeedsSignificantWork

record report =
  rep_avgStraightness :: "int option"
  rep_avgElbow :: real
  rep_avgTension :: int
  rep_maxTension :: int
  rep_tipPct :: int
  rep_midPct :: int
  rep_frogPct :: int
  rep_straightStatus :: status
  rep_elbowStatus :: status
  rep_shoulderStatus :: status
  rep_distStatus :: status
  rep_overall :: int
  rep_overallStatus :: status
  rep_overallComment :: overall_comment
  rep_distLabel :: dist_label
  rep_elbowLabel :: elbow_label

datatype diagnose_result = NoPoseDetected | Report report

text \<open>\<^verbatim>\<open>Math.max(...xs)\<close> on a list that the caller has checked to be non-empty.\<close>

definition Math_max_of :: "int list \<Rightarrow> int" where
  "Math_max_of xs = fold max (tl xs) (hd xs)"

text \<open>
  The aggregates of \<open>showDiagnoseReport\<close>, one definition for each constant of the
  function body, in its order. Every one of them is computed only after the guard on the
  empty log.
\<close>

definition validStraightness :: "log_entry list \<Rightarrow> int list" where
  "validStraightness diagnoseLog = List.map_filter straightness diagnoseLog"

definition avgStraightness :: "log_entry list \<Rightarrow> int option" where
  "avgStraightness diagnoseLog =
     (if 0 < length (validStraightness diagnoseLog)
      then Some (Math_round (real_of_int (sum_list (validStraightness diagnoseLog))
                              / real (length (validStraightness diagnoseLog))))
      else None)"

definition avgElbow :: "log_entry list \<Rightarrow> real" where
  "avgElbow diagnoseLog =
     real_of_int (Math_round
       ((\<Sum>l\<leftarrow>diagnoseLog. elbowHeight l) / real (length diagnoseLog) * 100)) / 100"

definition validTension :: "log_entry list \<Rightarrow> int list" where
  "validTension diagnoseLog = filter (\<lambda>t. 0 < t) (map shoulderTension diagnoseLog)"

definition avgTension :: "log_entry list \<Rightarrow> int" where
  "avgTension diagnoseLog =
     (if 0 < length (validTension diagnoseLog)
      then Math_round (real_of_int (sum_list (validTension diagnoseLog))
                        / real (length (validTension diagnoseLog)))
      else 0)"

definition maxTension :: "log_entry list \<Rightarrow> int" where
  "maxTension diagnoseLog =
     (if 0 < length (validTension diagnoseLog) then Math_max_of (validTension diagnoseLog) else 0)"

fun increment :: "zone \<Rightarrow> bow_distribution \<Rightarrow> bow_distribution" where
  "increment Tip c = c\<lparr>tip := tip c + 1\<rparr>"
| "increment Middle c = c\<lparr>middle := middle c + 1\<rparr>"
| "increment Frog c = c\<lparr>frog := frog c + 1\<rparr>"

definition zoneCounts :: "log_entry list \<Rightarrow> bow_distribution" where
  "zoneCounts diagnoseLog =
     fold (\<lambda>l c. increment (bowZone l) c) diagnoseLog \<lparr>tip = 0, middle = 0, frog = 0\<rparr>"

definition totalZone :: "log_entry list \<Rightarrow> nat" where
  "totalZone diagnoseLog =
     tip (zoneCounts diagnoseLog) + middle (zoneCounts diagnoseLog) + frog (zoneCounts diagnoseLog)"

definition zone_tipPct :: "log_entry list \<Rightarrow> int" where
  "zone_tipPct diagnoseLog =
     Math_round (real (tip (zoneCounts diagnoseLog)) / real (totalZone diagnoseLog) * 100)"

definition zone_frogPct :: "log_entry list \<Rightarrow> int" where
  "zone_frogPct diagnoseLog =
     Math_round (real (frog (zoneCounts diagnoseLog)) / real (totalZone diagnoseLog) * 100)"

definition zone_midPct :: "log_entry list \<Rightarrow> int" where
  "zone_midPct diagnoseLog = 100 - zone_tipPct diagnoseLog - zone_frogPct diagnoseLog"

definition straightStatus :: "log_entry list \<Rightarrow> status" where
  "straightStatus diagnoseLog =
     (case avgStraightness diagnoseLog of
        None \<Rightarrow> Good
      | Some a \<Rightarrow> if 85 \<le> a then Good else if 65 \<le> a then Warn else Bad)"

definition report_elbowStatus :: "log_entry list \<Rightarrow> status" where
  "report_elbowStatus diagnoseLog =
     (if avgElbow diagnoseLog < - 0.15 then Warn
      else if 0.5 < avgElbow diagnoseLog then Bad
      else if 0.35 < avgElbow diagnoseLog then Warn
      else Good)"

definition report_shoulderStatus :: "log_entry list \<Rightarrow> status" where
  "report_shoulderStatus diagnoseLog =
     (if 25 < maxTension diagnoseLog then Bad
      else if 15 < avgTension diagnoseLog then Warn
      else Good)"

definition maxZone :: "log_entry list \<Rightarrow> int" where
  "maxZone diagnoseLog =
     max (zone_tipPct diagnoseLog) (max (zone_midPct diagnoseLog) (zone_frogPct diagnoseLog))"

definition minZone :: "log_entry list \<Rightarrow> int" where
  "minZone diagnoseLog =
     min (zone_tipPct diagnoseLog) (min (zone_midPct diagnoseLog) (zone_frogPct diagnoseLog))"

definition distStatus :: "log_entry list \<Rightarrow> status" where
  "distStatus diagnoseLog =
     (if maxZone diagnoseLog - minZone diagnoseLog < 20 then Good
      else if maxZone diagnoseLog - minZone diagnoseLog < 35 then Warn
      else Bad)"

text \<open>The list \<^verbatim>\<open>scores\<close> of pairs \<^verbatim>\<open>{s, w}\<close>: a channel score and its weight.\<close>

definition scores :: "log_entry list \<Rightarrow> (int \<times> int) list" where
  "scores diagnoseLog =
     (case avgStraightness diagnoseLog of None \<Rightarrow> [] | Some a \<Rightarrow> [(a, 3)])
     @ [(if report_elbowStatus diagnoseLog = Good then 90
         else if report_elbowStatus diagnoseLog = Warn then 60 else 30, 2)]
     @ [(if report_shoulderStatus diagnoseLog = Good then 95
         else if report_shoulderStatus diagnoseLog = Warn then 60 else 30, 2)]
     @ [(if distStatus diagnoseLog = Good then 90
         else if distStatus diagnoseLog = Warn then 65 else 35, 1)]"

definition totalW :: "log_entry list \<Rightarrow> int" where
  "totalW diagnoseLog = (\<Sum>(s, w)\<leftarrow>scores diagnoseLog. w)"

definition overall :: "log_entry list \<Rightarrow> int" where
  "overall diagnoseLog =
     Math_round (real_of_int (\<Sum>(s, w)\<leftarrow>scores diagnoseLog. s * w)
                  / real_of_int (totalW diagnoseLog))"

definition overallStatus :: "log_entry list \<Rightarrow> status" where
  "overallStatus diagnoseLog =
     (if 80 \<le> overall diagnoseLog then Good
      else if 60 \<le> overall diagnoseLog then Warn
      else Bad)"

definition overallComment :: "log_entry list \<Rightarrow> overall_comment" where
  "overallComment diagnoseLog =
     (if 85 \<le> overall diagnoseLog then Excellent
      else if 70 \<le> overall diagnoseLog then GoodBasics
      else if 50 \<le> overall diagnoseLog then NeedsWork
      else NeedsSignificantWork)"

definition distLabel :: "log_entry list \<Rightarrow> dist_label" where
  "distLabel diagnoseLog =
     (if 50 \<le> maxZone diagnoseLog then
        (if zone_tipPct diagnoseLog = maxZone diagnoseLog then TipHeavy
         else if zone_frogPct diagnoseLog = maxZone diagnoseLog then FrogHeavy
         else MiddleCentred)
      else FullBow)"

definition report_elbowLabel :: "log_entry list \<Rightarrow> elbow_label" where
  "report_elbowLabel diagnoseLog =
     (if avgElbow diagnoseLog < - 0.15 then TooHigh
      else if 0.5 < avgElbow diagnoseLog then TooLow
      else if 0.35 < avgElbow diagnoseLog then SlightlyLow
      else ElbowProper)"

definition showDiagnoseReport :: "log_entry list \<Rightarrow> diagnose_result" where
  "showDiagnoseReport diagnoseLog =
     (if length diagnoseLog = 0 then NoPoseDetected
      else Report
        \<lparr>rep_avgStraightness = avgStraightness diagnoseLog,
         rep_avgElbow = avgElbow diagnoseLog,
         rep_avgTension = avgTension diagnoseLog,
         rep_maxTension = maxTension diagnoseLog,
         rep_tipPct = zone_tipPct diagnoseLog,
         rep_midPct = zone_midPct diagnoseLog,
         rep_frogPct = zone_frogPct diagnoseLog,
         rep_straightStatus = straightStatus diagnoseLog,
         rep_elbowStatus = report_elbowStatus diagnoseLog,
         rep_shoulderStatus = report_shoulderStatus diagnoseLog,
         rep_distStatus = distStatus diagnoseLog,
         rep_overall = overall diagnoseLog,
         rep_overallStatus = overallStatus diagnoseLog,
         rep_overallComment = overallComment diagnoseLog,
         rep_distLabel = distLabel diagnoseLog,
         rep_elbowLabel = report_elbowLabel diagnoseLog\<rparr>)"

text \<open>
  The overall score in the words of the specification: each status is mapped to the
  points of its channel, and the channels, each with its weight, are averaged. The
  straightness channel is left out when no entry of the log has a score.
\<close>

fun elbow_points :: "status \<Rightarrow> real" where
  "elbow_points Good = 90"
| "elbow_points Warn = 60"
| "elbow_points Bad = 30"

fun shoulder_points :: "status \<Rightarrow> real" where
  "shoulder_points Good = 95"
| "shoulder_points Warn = 60"
| "shoulder_points Bad = 30"

fun spread_points :: "status \<Rightarrow> real" where
  "spread_points Good = 90"
| "spread_points Warn = 65"
| "spread_points Bad = 35"

definition weighted_average :: "(real \<times> real) list \<Rightarrow> real" where
  "weighted_average channels = (\<Sum>(s, w)\<leftarrow>channels. s * w) / (\<Sum>(s, w)\<leftarrow>channels. w)"

definition channels_of ::
  "real option \<Rightarrow> status \<Rightarrow> status \<Rightarrow> status \<Rightarrow> (real \<times> real) list" where
  "channels_of straight elbowSt shoulderSt spreadSt =
     (case straight of None \<Rightarrow> [] | Some a \<Rightarrow> [(a, 3)])
     @ [(elbow_points elbowSt, 2), (shoulder_points shoulderSt, 2),
        (spread_points spreadSt, 1)]"

text \<open>
  The mean straightness over the entries with a score, and the same mean rounded to
  the nearest integer.
\<close>

definition mean_straightness :: "log_entry list \<Rightarrow> real option" where
  "mean_straightness diagnoseLog =
     (let valid = List.map_filter straightness diagnoseLog
      in if valid = [] then None
         else Some (real_of_int (sum_list valid) / real (length valid)))"

definition rounded_mean_straightness :: "log_entry list \<Rightarrow> real option" where
  "rounded_mean_straightness diagnoseLog =
     map_option (\<lambda>a. real_of_int (Math_round a)) (mean_straightness diagnoseLog)"

text \<open>
  Log entries for the evaluations below: a frame with a given straightness and zone,
  the elbow at relative height 0.1, no tension.
\<close>

definition frame :: "int option \<Rightarrow> zone \<Rightarrow> log_entry" where
  "frame s z =
     \<lparr>straightness = s,
      straightnessStatus =
        (case s of
           None \<Rightarrow> Good
         | Some v \<Rightarrow> if 85 \<le> v then Good else if 65 \<le> v then Warn else Bad),
      elbowHeight = 0.1, elbowStatus = Good, elbowLabel = ElbowOK,
      shoulderTension = 0, shoulderStatus = Good, shoulderLabel = Relaxed,
      bowZone = z, logged_extensionRatio = 0.6\<rparr>"

definition log0 :: "log_entry list" where
  "log0 = [frame None Middle, frame None Frog, frame (Some 66) Tip, frame (Some 67) Tip]"

definition log1 :: "log_entry list" where
  "log1 = [frame None Tip, frame None Middle, frame None Frog]"

section \<open>Properties\<close>

lemma distance_same_height:
  "py a = py b \<Longrightarrow> distance a b = \<bar>px a - px b\<bar>"
  by (simp add: distance_def)

lemma distance_nonneg: "0 \<le> distance a b"
  by (simp add: distance_def Let_def)

text \<open>
  C10. The result of \<open>computeElbowHeight\<close> does not depend on its fourth argument, the
  left hip: two calls that differ only there return the same record.
\<close>

theorem computeElbowHeight_ignores_lHip:
  "computeElbowHeight shoulder elbow rHip lHip = computeElbowHeight shoulder elbow rHip lHip'"
  by (simp add: computeElbowHeight_def)

lemma zone_cases:
  assumes "\<not> distance s e + distance e w < 0.01"
  shows "zone (computeBowZone s e w) =
           (if distance s w / (distance s e + distance e w) < 0.55 then Frog
            else if distance s w / (distance s e + distance e w) < 0.78 then Middle else Tip)"
  using assms by (simp add: computeBowZone_def Let_def)

lemma distance_on_axis [simp]:
  "distance \<lparr>px = a, py = 0\<rparr> \<lparr>px = b, py = 0\<rparr> = \<bar>a - b\<bar>"
  by (simp add: distance_same_height)

text \<open>
  C8. When the arm (upper arm plus forearm) is shorter than 0.01, \<open>computeBowZone\<close>
  returns the default: zone middle with extension ratio 0.5. Otherwise the zone is
  decided by the extension ratio (shoulder-to-wrist distance over arm length) alone:
  frog below 0.55, middle below 0.78, tip from there on, and the ratio is reported
  rounded to two decimals. So the classification is monotone: of two arms that both pass
  the guard, the one with the larger ratio is never in an earlier zone. The witness
  evaluates arms with ratios 0.3, 0.6 and 0.9, which land in frog, middle and tip.
\<close>

theorem computeBowZone_thresholds:
  fixes s :: "'a point_scheme" and e :: "'b point_scheme" and w :: "'c point_scheme"
    and s' :: "'d point_scheme" and e' :: "'e point_scheme" and w' :: "'f point_scheme"
  defines "armLength \<equiv> distance s e + distance e w"
      and "armLength' \<equiv> distance s' e' + distance e' w'"
  defines "ratio \<equiv> distance s w / armLength"
      and "ratio' \<equiv> distance s' w' / armLength'"
  shows "(armLength < 0.01 \<longrightarrow> computeBowZone s e w = \<lparr>zone = Middle, extensionRatio = 0.5\<rparr>)
       \<and> (0.01 \<le> armLength \<longrightarrow>
            zone (computeBowZone s e w) =
              (if ratio < 0.55 then Frog else if ratio < 0.78 then Middle else Tip)
          \<and> extensionRatio (computeBowZone s e w) = real_of_int (Math_round (ratio * 100)) / 100)
       \<and> (0.01 \<le> armLength \<and> 0.01 \<le> armLength' \<and> ratio \<le> ratio' \<longrightarrow>
            zone_rank (zone (computeBowZone s e w)) \<le> zone_rank (zone (computeBowZone s' e' w')))"
proof -
  have dflt: "armLength < 0.01 \<Longrightarrow> computeBowZone s e w = \<lparr>zone = Middle, extensionRatio = 0.5\<rparr>"
    unfolding armLength_def by (simp add: computeBowZone_def Let_def)
  have z: "0.01 \<le> armLength \<Longrightarrow> zone (computeBowZone s e w) =
              (if ratio < 0.55 then Frog else if ratio < 0.78 then Middle else Tip)"
    unfolding armLength_def ratio_def by (rule zone_cases) simp
  have z': "0.01 \<le> armLength' \<Longrightarrow> zone (computeBowZone s' e' w') =
              (if ratio' < 0.55 then Frog else if ratio' < 0.78 then Middle else Tip)"
    unfolding armLength'_def ratio'_def by (rule zone_cases) simp
  have er: "0.01 \<le> armLength \<Longrightarrow>
      extensionRatio (computeBowZone s e w) = real_of_int (Math_round (ratio * 100)) / 100"
    unfolding armLength_def ratio_def by (simp add: computeBowZone_def Let_def)
  have mono: "0.01 \<le> armLength \<Longrightarrow> 0.01 \<le> armLength' \<Longrightarrow> ratio \<le> ratio' \<Longrightarrow>
      zone_rank (zone (computeBowZone s e w)) \<le> zone_rank (zone (computeBowZone s' e' w'))"
    by (simp add: z z')
  show ?thesis using dflt z er mono by blast
qed

theorem computeBowZone_thresholds_witness:
  "computeBowZone \<lparr>px = 0, py = 0\<rparr> \<lparr>px = 0, py = 0\<rparr> \<lparr>px = 0, py = 0\<rparr>
     = \<lparr>zone = Middle, extensionRatio = 0.5\<rparr>
   \<and> computeBowZone \<lparr>px = 0, py = 0\<rparr> \<lparr>px = 0.13, py = 0\<rparr> \<lparr>px = 0.06, py = 0\<rparr>
     = \<lparr>zone = Frog, extensionRatio = 0.3\<rparr>
   \<and> computeBowZone \<lparr>px = 0, py = 0\<rparr> \<lparr>px = 0.04, py = 0\<rparr> \<lparr>px = 0.03, py = 0\<rparr>
     = \<lparr>zone = Middle, extensionRatio = 0.6\<rparr>
   \<and> computeBowZone \<lparr>px = 0, py = 0\<rparr> \<lparr>px = 0.19, py = 0\<rparr> \<lparr>px = 0.18, py = 0\<rparr>
     = \<lparr>zone = Tip, extensionRatio = 0.9\<rparr>
   \<and> zone_rank (zone (computeBowZone \<lparr>px = 0, py = 0\<rparr> \<lparr>px = 0.13, py = 0\<rparr> \<lparr>px = 0.06, py = 0\<rparr>))
       \<le> zone_rank (zone (computeBowZone \<lparr>px = 0, py = 0\<rparr> \<lparr>px = 0.19, py = 0\<rparr> \<lparr>px = 0.18, py = 0\<rparr>))"
proof -
  let ?o = "\<lparr>px = 0, py = 0\<rparr>"
  note t1 = computeBowZone_thresholds [of ?o ?o ?o ?o ?o ?o]
  note t2 = computeBowZone_thresholds
      [of ?o "\<lparr>px = 0.13, py = 0\<rparr>" "\<lparr>px = 0.06, py = 0\<rparr>" ?o "\<lparr>px = 0.19, py = 0\<rparr>" "\<lparr>px = 0.18, py = 0\<rparr>"]
  note t3 = computeBowZone_thresholds
      [of ?o "\<lparr>px = 0.04, py = 0\<rparr>" "\<lparr>px = 0.03, py = 0\<rparr>" ?o "\<lparr>px = 0.19, py = 0\<rparr>" "\<lparr>px = 0.18, py = 0\<rparr>"]
  note t4 = computeBowZone_thresholds
      [of ?o "\<lparr>px = 0.19, py = 0\<rparr>" "\<lparr>px = 0.18, py = 0\<rparr>" ?o ?o ?o]
  have r: "Math_round 30 = 30" "Math_round 60 = 60" "Math_round 90 = 90"
    by (simp_all add: Math_round_def)
  have e1: "computeBowZone ?o ?o ?o = \<lparr>zone = Middle, extensionRatio = 0.5\<rparr>"
    using t1 by simp
  have e2: "computeBowZone ?o \<lparr>px = 0.13, py = 0\<rparr> \<lparr>px = 0.06, py = 0\<rparr>
     = \<lparr>zone = Frog, extensionRatio = 0.3\<rparr>"
    using t2 by (cases "computeBowZone ?o \<lparr>px = 0.13, py = 0\<rparr> \<lparr>px = 0.06, py = 0\<rparr>") (simp add: r)
  have e3: "computeBowZone ?o \<lparr>px = 0.04, py = 0\<rparr> \<lparr>px = 0.03, py = 0\<rparr>
     = \<lparr>zone = Middle, extensionRatio = 0.6\<rparr>"
    using t3 by (cases "computeBowZone ?o \<lparr>px = 0.04, py = 0\<rparr> \<lparr>px = 0.03, py = 0\<rparr>") (simp add: r)
  have e4: "computeBowZone ?o \<lparr>px = 0.19, py = 0\<rparr> \<lparr>px = 0.18, py = 0\<rparr>
     = \<lparr>zone = Tip, extensionRatio = 0.9\<rparr>"
    using t4 by (cases "computeBowZone ?o \<lparr>px = 0.19, py = 0\<rparr> \<lparr>px = 0.18, py = 0\<rparr>") (simp add: r)
  have e5: "zone_rank (zone (computeBowZone ?o \<lparr>px = 0.13, py = 0\<rparr> \<lparr>px = 0.06, py = 0\<rparr>))
       \<le> zone_rank (zone (computeBowZone ?o \<lparr>px = 0.19, py = 0\<rparr> \<lparr>px = 0.18, py = 0\<rparr>))"
    using t2 by simp
  show ?thesis using e1 e2 e3 e4 e5 by blast
qed

text \<open>
  C2. For counters with a non-zero total, the three percentages of
  \<open>computeDistributionPercent\<close> add up to exactly 100: tip and frog are the rounded
  shares, and the middle percentage is 100 minus those two. For a zero total the result
  is exactly 33, 34, 33 with the no-data label.
\<close>

theorem computeDistributionPercent_sum:
  fixes counts :: bow_distribution
  defines "n \<equiv> tip counts + middle counts + frog counts"
  defines "r \<equiv> computeDistributionPercent counts"
  shows "(n \<noteq> 0 \<longrightarrow>
            tipPct r + midPct r + frogPct r = 100
          \<and> tipPct r = Math_round (real (tip counts) / real n * 100)
          \<and> frogPct r = Math_round (real (frog counts) / real n * 100)
          \<and> midPct r = 100 - tipPct r - frogPct r)
       \<and> (n = 0 \<longrightarrow> r = \<lparr>tipPct = 33, midPct = 34, frogPct = 33, dist_label = NoData\<rparr>)"
  unfolding n_def r_def
  by (simp add: computeDistributionPercent_def Let_def)

theorem computeDistributionPercent_sum_witness:
  "tipPct (computeDistributionPercent \<lparr>tip = 2, middle = 3, frog = 1\<rparr>)
     + midPct (computeDistributionPercent \<lparr>tip = 2, middle = 3, frog = 1\<rparr>)
     + frogPct (computeDistributionPercent \<lparr>tip = 2, middle = 3, frog = 1\<rparr>) = 100
   \<and> tipPct (computeDistributionPercent \<lparr>tip = 2, middle = 3, frog = 1\<rparr>) = 33
   \<and> frogPct (computeDistributionPercent \<lparr>tip = 2, middle = 3, frog = 1\<rparr>) = 17
   \<and> midPct (computeDistributionPercent \<lparr>tip = 2, middle = 3, frog = 1\<rparr>) = 50
   \<and> computeDistributionPercent \<lparr>tip = 0, middle = 0, frog = 0\<rparr>
       = \<lparr>tipPct = 33, midPct = 34, frogPct = 33, dist_label = NoData\<rparr>"
proof -
  have r: "Math_round (100 / 3) = 33" "Math_round (50 / 3) = 17"
    by (simp_all add: Math_round_def)
  show ?thesis
    using computeDistributionPercent_sum [of "\<lparr>tip = 2, middle = 3, frog = 1\<rparr>"]
          computeDistributionPercent_sum [of "\<lparr>tip = 0, middle = 0, frog = 0\<rparr>"]
    by (simp add: r)
qed

text \<open>
  C1, as the code has it. The claim says that without a baseline the evaluator reports
  status good with the calibration-pending label whatever the landmarks are. The
  evaluator runs its left/right check also without a baseline: with a right
  shoulder-ear distance of 1 and a left one of 0 it returns status warn with the
  left/right-difference label.
\<close>

theorem computeShoulderTension_asymmetry_counterexample:
  "shoulder_status (computeShoulderTension \<lparr>px = 0, py = 0\<rparr> \<lparr>px = 0, py = 1\<rparr>
                      \<lparr>px = 0, py = 0\<rparr> \<lparr>px = 0, py = 0\<rparr> None) = Warn
   \<and> shoulder_label (computeShoulderTension \<lparr>px = 0, py = 0\<rparr> \<lparr>px = 0, py = 1\<rparr>
                      \<lparr>px = 0, py = 0\<rparr> \<lparr>px = 0, py = 0\<rparr> None) = Asymmetric"
  by (simp add: computeShoulderTension_def distance_def js_div_def)

text \<open>
  C1, amended. With no baseline (null or not positive) the tension is 0 for all
  landmarks; the evaluator's status is good with the label "relaxed", unless the two
  shoulder-ear distances differ by more than 0.2 of the larger one, where it is warn
  with the left/right-difference label. The calibration-pending entry (tension 0,
  status good) is what \<open>processFrame\<close> stores in the metrics record while the baseline
  of the session is null, for all landmarks.
\<close>

theorem computeShoulderTension_without_baseline:
  assumes "no_baseline baseDist"
  shows "tension (computeShoulderTension rS rE lS lE baseDist) = 0
       \<and> shoulder_status (computeShoulderTension rS rE lS lE baseDist)
           = (if asymmetric rS rE lS lE then Warn else Good)
       \<and> shoulder_label (computeShoulderTension rS rE lS lE baseDist)
           = (if asymmetric rS rE lS lE then Asymmetric else Relaxed)
       \<and> processFrame_shoulder None rS rE lS lE
           = \<lparr>tension = 0, shoulder_status = Good, shoulder_label = CalibrationPending,
              currentDist = (distance rS rE + distance lS lE) / 2\<rparr>"
proof -
  have pf: "processFrame_shoulder None rS rE lS lE
           = \<lparr>tension = 0, shoulder_status = Good, shoulder_label = CalibrationPending,
              currentDist = (distance rS rE + distance lS lE) / 2\<rparr>"
    by (simp add: processFrame_shoulder_def computeShoulderTension_def Let_def split: prod.splits)
  have ev: "computeShoulderTension rS rE lS lE baseDist
           = \<lparr>tension = 0,
              shoulder_status = (if asymmetric rS rE lS lE then Warn else Good),
              shoulder_label = (if asymmetric rS rE lS lE then Asymmetric else Relaxed),
              currentDist = (distance rS rE + distance lS lE) / 2\<rparr>"
  proof (cases baseDist)
    case None
    then show ?thesis
      by (simp add: computeShoulderTension_def asymmetric_def Let_def)
  next
    case (Some b)
    with assms have "\<not> 0 < b" by (simp add: no_baseline_def)
    with Some show ?thesis
      by (simp add: computeShoulderTension_def asymmetric_def Let_def)
  qed
  show ?thesis by (simp add: pf ev)
qed

theorem computeShoulderTension_without_baseline_witness:
  "no_baseline (Some 0)
   \<and> tension (computeShoulderTension \<lparr>px = 0, py = 0\<rparr> \<lparr>px = 0, py = 1\<rparr>
                 \<lparr>px = 1, py = 0\<rparr> \<lparr>px = 1, py = 1\<rparr> (Some 0)) = 0
   \<and> shoulder_status (computeShoulderTension \<lparr>px = 0, py = 0\<rparr> \<lparr>px = 0, py = 1\<rparr>
                 \<lparr>px = 1, py = 0\<rparr> \<lparr>px = 1, py = 1\<rparr> (Some 0)) = Good
   \<and> shoulder_label (computeShoulderTension \<lparr>px = 0, py = 0\<rparr> \<lparr>px = 0, py = 1\<rparr>
                 \<lparr>px = 1, py = 0\<rparr> \<lparr>px = 1, py = 1\<rparr> (Some 0)) = Relaxed
   \<and> processFrame_shoulder None \<lparr>px = 0, py = 0\<rparr> \<lparr>px = 0, py = 1\<rparr>
                 \<lparr>px = 1, py = 0\<rparr> \<lparr>px = 1, py = 1\<rparr>
       = \<lparr>tension = 0, shoulder_status = Good, shoulder_label = CalibrationPending,
          currentDist = 1\<rparr>"
proof -
  have nb: "no_baseline (Some 0)"
    by (simp add: no_baseline_def)
  have d: "distance \<lparr>px = 0, py = 0\<rparr> \<lparr>px = 0, py = 1\<rparr> = 1"
          "distance \<lparr>px = 1, py = 0\<rparr> \<lparr>px = 1, py = 1\<rparr> = 1"
    by (simp_all add: distance_def)
  have sym: "\<not> asymmetric \<lparr>px = 0, py = 0\<rparr> \<lparr>px = 0, py = 1\<rparr>
                 \<lparr>px = 1, py = 0\<rparr> \<lparr>px = 1, py = 1\<rparr>"
    by (simp add: asymmetric_def d js_div_def)
  show ?thesis
    using computeShoulderTension_without_baseline [OF nb,
        of "\<lparr>px = 0, py = 0\<rparr>" "\<lparr>px = 0, py = 1\<rparr>" "\<lparr>px = 1, py = 0\<rparr>" "\<lparr>px = 1, py = 1\<rparr>"]
    by (simp add: nb sym d)
qed

lemma MAX_VALUE_ge: "2 powi 1023 \<le> MAX_VALUE"
  by (simp add: MAX_VALUE_def)

lemma fl_round_zero: "admissible ar \<Longrightarrow> fl_round ar 0 = 0"
proof -
  assume "admissible ar"
  then have "fl_round ar (- 0) = - fl_round ar 0"
    unfolding admissible_def by blast
  then show ?thesis by simp
qed

lemma fl_round_mono: "admissible ar \<Longrightarrow> v \<le> w \<Longrightarrow> fl_round ar v \<le> fl_round ar w"
  unfolding admissible_def by blast

lemma fl_round_minus: "admissible ar \<Longrightarrow> fl_round ar (- v) = - fl_round ar v"
  unfolding admissible_def by blast

lemma fl_round_pow2:
  "admissible ar \<Longrightarrow> - 1074 \<le> n \<Longrightarrow> n \<le> 1023 \<Longrightarrow> fl_round ar (2 powi n) = 2 powi n"
  unfolding admissible_def by blast

lemma fl_round_nonneg: "admissible ar \<Longrightarrow> 0 \<le> v \<Longrightarrow> 0 \<le> fl_round ar v"
  using fl_round_mono [of ar 0 v] fl_round_zero [of ar] by simp

lemma fl_round_bound:
  assumes "admissible ar" "- 1074 \<le> n" "n \<le> 1023" "\<bar>v\<bar> \<le> 2 powi n"
  shows "\<bar>fl_round ar v\<bar> \<le> 2 powi n"
proof -
  have up: "fl_round ar v \<le> 2 powi n"
    using fl_round_mono [OF assms(1), of v "2 powi n"] fl_round_pow2 [OF assms(1-3)] assms(4)
    by simp
  have "fl_round ar (- (2 powi n)) \<le> fl_round ar v"
    using fl_round_mono [OF assms(1), of "- (2 powi n)" v] assms(4) by simp
  then have "- (2 powi n) \<le> fl_round ar v"
    using fl_round_minus [OF assms(1), of "2 powi n"] fl_round_pow2 [OF assms(1-3)] by simp
  with up show ?thesis by simp
qed

lemma fl_finite:
  assumes "admissible ar" "- 1074 \<le> n" "n \<le> 1023" "\<bar>v\<bar> \<le> 2 powi n"
  shows "fl ar v = Finite (fl_round ar v)"
proof -
  have "\<bar>fl_round ar v\<bar> \<le> 2 powi n"
    by (rule fl_round_bound [OF assms])
  moreover have "(2::real) powi n \<le> 2 powi 1023"
    using assms(3) by (intro power_int_increasing) simp_all
  ultimately have "\<bar>fl_round ar v\<bar> \<le> MAX_VALUE"
    using MAX_VALUE_ge by linarith
  then show ?thesis
    by (auto simp add: fl_def)
qed


lemma fl_square:
  assumes "admissible ar" "\<bar>x\<bar> \<le> 2 powi 501"
  shows "fl_mul ar (Finite x) (Finite x) = Finite (fl_round ar (x * x))"
    and "0 \<le> fl_round ar (x * x)" and "fl_round ar (x * x) \<le> 2 powi 1002"
proof -
  have "\<bar>x\<bar> * \<bar>x\<bar> \<le> 2 powi 501 * 2 powi 501"
    using assms(2) by (intro mult_mono) simp_all
  then have b: "\<bar>x * x\<bar> \<le> 2 powi 1002"
    by (simp add: abs_mult)
  show "fl_mul ar (Finite x) (Finite x) = Finite (fl_round ar (x * x))"
    using fl_finite [OF assms(1) _ _ b] by simp
  show "0 \<le> fl_round ar (x * x)"
    by (rule fl_round_nonneg [OF assms(1)]) simp
  show "fl_round ar (x * x) \<le> 2 powi 1002"
    using fl_round_bound [OF assms(1) _ _ b] by simp
qed

lemma fl_product:
  assumes "admissible ar" "\<bar>x\<bar> \<le> 2 powi 501" "\<bar>y\<bar> \<le> 2 powi 501"
  shows "fl_mul ar (Finite x) (Finite y) = Finite (fl_round ar (x * y))"
    and "\<bar>fl_round ar (x * y)\<bar> \<le> 2 powi 1002"
proof -
  have "\<bar>x\<bar> * \<bar>y\<bar> \<le> 2 powi 501 * 2 powi 501"
    using assms(2,3) by (intro mult_mono) simp_all
  then have b: "\<bar>x * y\<bar> \<le> 2 powi 1002"
    by (simp add: abs_mult)
  show "fl_mul ar (Finite x) (Finite y) = Finite (fl_round ar (x * y))"
    using fl_finite [OF assms(1) _ _ b] by simp
  show "\<bar>fl_round ar (x * y)\<bar> \<le> 2 powi 1002"
    using fl_round_bound [OF assms(1) _ _ b] by simp
qed

lemma magnitude:
  assumes "admissible ar" "\<bar>x\<bar> \<le> 2 powi 501" "\<bar>y\<bar> \<le> 2 powi 501"
  shows "\<exists>m. fl_sqrt ar (fl_add ar (fl_mul ar (Finite x) (Finite x))
                                    (fl_mul ar (Finite y) (Finite y))) = Finite m
             \<and> (m = 0 \<or> 2 powi (- 537) \<le> m) \<and> m \<le> 2 powi 502"
proof -
  let ?xx = "fl_round ar (x * x)" and ?yy = "fl_round ar (y * y)"
  let ?s = "fl_round ar (?xx + ?yy)"
  note sx = fl_square [OF assms(1,2)] and sy = fl_square [OF assms(1,3)]
  have b: "\<bar>?xx + ?yy\<bar> \<le> 2 powi 1003"
    using sx(2,3) sy(2,3) by simp
  have sum: "fl_add ar (Finite ?xx) (Finite ?yy) = Finite ?s"
    using fl_finite [OF assms(1) _ _ b] by simp
  have s0: "0 \<le> ?s"
    using sx(2) sy(2) by (intro fl_round_nonneg [OF assms(1)]) simp
  have s1: "?s \<le> 2 powi 1003"
    using fl_round_bound [OF assms(1) _ _ b] by simp
  let ?m = "fl_round ar (sqrt ?s)"
  have m: "fl_sqrt ar (Finite ?s) = Finite ?m"
    using s0 by simp
  have "sqrt ?s \<le> sqrt (2 powi 1004)"
    using s1 by (intro real_sqrt_le_mono) simp
  also have "sqrt (2 powi 1004) = (2::real) powi 502"
    by (rule real_sqrt_unique) (simp_all add: power2_eq_square flip: power_add)
  finally have "\<bar>sqrt ?s\<bar> \<le> 2 powi 502"
    using s0 by simp
  then have up: "?m \<le> 2 powi 502"
    using fl_round_bound [OF assms(1), of 502 "sqrt ?s"] by simp
  have low: "?m = 0 \<or> 2 powi (- 537) \<le> ?m"
  proof (cases "?s = 0")
    case True
    then show ?thesis by (simp add: fl_round_zero [OF assms(1)])
  next
    case False
    then have "2 powi (- 1074) \<le> \<bar>?s\<bar>"
      using assms(1) unfolding admissible_def by blast
    then have "2 powi (- 1074) \<le> ?s"
      using s0 by simp
    then have "sqrt (2 powi (- 1074)) \<le> sqrt ?s"
      by (intro real_sqrt_le_mono)
    moreover have "sqrt (2 powi (- 1074)) = (2::real) powi (- 537)"
      by (rule real_sqrt_unique) (simp_all add: power2_eq_square power_int_minus flip: power_add)
    ultimately have "2 powi (- 537) \<le> sqrt ?s"
      by (simp only:)
    then have "fl_round ar (2 powi (- 537)) \<le> ?m"
      by (rule fl_round_mono [OF assms(1)])
    then show ?thesis
      using fl_round_pow2 [OF assms(1), of "- 537"] by simp
  qed
  show ?thesis
    using sx(1) sy(1) sum m up low by simp
qed

lemma dot_finite:
  assumes "admissible ar" "\<bar>x\<bar> \<le> 2 powi 501" "\<bar>y\<bar> \<le> 2 powi 501"
    "\<bar>x'\<bar> \<le> 2 powi 501" "\<bar>y'\<bar> \<le> 2 powi 501"
  shows "\<exists>d. fl_add ar (fl_mul ar (Finite x) (Finite x')) (fl_mul ar (Finite y) (Finite y')) = Finite d"
proof -
  note p = fl_product [OF assms(1,2,4)] and q = fl_product [OF assms(1,3,5)]
  have b: "\<bar>fl_round ar (x * x') + fl_round ar (y * y')\<bar> \<le> 2 powi 1003"
    using p(2) q(2) by simp
  show ?thesis
    using p(1) q(1) fl_finite [OF assms(1) _ _ b] by simp
qed

lemma quotient_not_NaN:
  assumes "admissible ar" "2 powi (- 537) \<le> m" "m \<le> 2 powi 502"
    "2 powi (- 537) \<le> m'" "m' \<le> 2 powi 502"
  shows "fl_div ar (Finite d) (fl_mul ar (Finite m) (Finite m')) \<noteq> NaN"
proof -
  have m0: "0 \<le> m" "0 \<le> m'"
    using assms(2,4) zero_less_power_int [of "2::real" "- 537"] by linarith+
  have "m * m' \<le> 2 powi 502 * 2 powi 502"
    using assms(3,5) m0 by (intro mult_mono) simp_all
  then have b: "\<bar>m * m'\<bar> \<le> 2 powi 1004"
    using m0 by simp
  have "2 powi (- 537) * 2 powi (- 537) \<le> m * m'"
    using assms(2,4) m0 by (intro mult_mono) simp_all
  then have "(2::real) powi (- 1074) \<le> m * m'"
    by (simp add: power_int_minus flip: power_add)
  then have "fl_round ar (2 powi (- 1074)) \<le> fl_round ar (m * m')"
    by (rule fl_round_mono [OF assms(1)])
  then have "0 < fl_round ar (m * m')"
    using fl_round_pow2 [OF assms(1), of "- 1074"] zero_less_power_int [of "2::real" "- 1074"]
    by simp
  moreover have "fl_mul ar (Finite m) (Finite m') = Finite (fl_round ar (m * m'))"
    using fl_finite [OF assms(1) _ _ b] by simp
  ultimately show ?thesis
    by (simp add: fl_def)
qed

lemma clamp_range:
  "q \<noteq> NaN \<Longrightarrow> \<exists>v. Math_max (- 1) (Math_min 1 q) = Finite v \<and> - 1 \<le> v \<and> v \<le> 1"
  by (cases q) auto

lemma degrees_range:
  assumes "admissible ar" "- 1 \<le> v" "v \<le> 1"
  shows "\<exists>d. fl_div ar (fl_mul ar (Math_acos ar (Finite v)) (Finite 180)) (Finite (Math_PI ar))
               = Finite d \<and> 0 \<le> d \<and> d \<le> 180"
proof -
  let ?r = "acos_impl ar v" and ?P = "Math_PI ar"
  have P: "2 \<le> ?P" "?P \<le> 4"
    and straight: "fl_round ar (fl_round ar (?P * 180) / ?P) = 180"
    using assms(1) unfolding admissible_def by blast+
  have r: "0 \<le> ?r" "?r \<le> ?P"
    using assms unfolding admissible_def by blast+
  let ?x = "fl_round ar (?r * 180)"
  have b: "\<bar>?r * 180\<bar> \<le> 2 powi 10"
    using r P by simp
  have mul: "fl_mul ar (Finite ?r) (Finite 180) = Finite ?x"
    using fl_finite [OF assms(1) _ _ b] by simp
  have x0: "0 \<le> ?x"
    using r by (intro fl_round_nonneg [OF assms(1)]) simp
  have x1: "?x \<le> 2 powi 10"
    using fl_round_bound [OF assms(1) _ _ b] by simp
  have xs: "?x \<le> fl_round ar (?P * 180)"
    using r by (intro fl_round_mono [OF assms(1)]) simp
  have "?x / ?P \<le> ?x / 2"
    using x0 P by (intro divide_left_mono) simp_all
  moreover have "?x / 2 \<le> 2 powi 9"
    using x1 by simp
  moreover have "0 \<le> ?x / ?P"
    using x0 P by simp
  ultimately have c: "\<bar>?x / ?P\<bar> \<le> 2 powi 9"
    by linarith
  have dv: "fl_div ar (Finite ?x) (Finite ?P) = Finite (fl_round ar (?x / ?P))"
    using fl_finite [OF assms(1) _ _ c] P by simp
  have d0: "0 \<le> fl_round ar (?x / ?P)"
    using x0 P by (intro fl_round_nonneg [OF assms(1)]) simp
  have "?x / ?P \<le> fl_round ar (?P * 180) / ?P"
    using xs P by (intro divide_right_mono) simp_all
  then have "fl_round ar (?x / ?P) \<le> fl_round ar (fl_round ar (?P * 180) / ?P)"
    by (rule fl_round_mono [OF assms(1)])
  then have d1: "fl_round ar (?x / ?P) \<le> 180"
    using straight by simp
  show ?thesis
    using assms(2,3) mul dv d0 d1 by simp
qed

lemma fl_zero: "admissible ar \<Longrightarrow> fl ar 0 = Finite 0"
  by (simp add: fl_def fl_round_zero MAX_VALUE_def)

lemma difference_finite:
  assumes "admissible ar" "\<bar>u\<bar> \<le> 2 ^ 500" "\<bar>v\<bar> \<le> 2 ^ 500"
  shows "fl ar (u - v) = Finite (fl_round ar (u - v))" and "\<bar>fl_round ar (u - v)\<bar> \<le> 2 powi 501"
proof -
  have b: "\<bar>u - v\<bar> \<le> 2 powi 501"
    using assms(2,3) by simp
  show "fl ar (u - v) = Finite (fl_round ar (u - v))"
    using fl_finite [OF assms(1) _ _ b] by simp
  show "\<bar>fl_round ar (u - v)\<bar> \<le> 2 powi 501"
    using fl_round_bound [OF assms(1) _ _ b] by simp
qed

lemma coincident_left: "admissible ar \<Longrightarrow> angleBetween3 ar b b c = Finite 0"
  by (simp add: angleBetween3_def fl_zero fl_round_zero)

lemma coincident_right: "admissible ar \<Longrightarrow> angleBetween3 ar a b b = Finite 0"
  by (simp add: angleBetween3_def fl_zero fl_round_zero)

lemma round_half_even_bounds: "\<lfloor>q\<rfloor> \<le> round_half_even q" "round_half_even q \<le> \<lfloor>q\<rfloor> + 1"
  by (simp_all add: round_half_even_def Let_def)

lemma round_half_even_of_int [simp]: "round_half_even (of_int n) = n"
  by (simp add: round_half_even_def)

lemma round_half_even_mono:
  assumes "q \<le> q'"
  shows "round_half_even q \<le> round_half_even q'"
proof (cases "\<lfloor>q\<rfloor> = \<lfloor>q'\<rfloor>")
  case True
  with assms show ?thesis
    by (auto simp add: round_half_even_def Let_def)
next
  case False
  with assms have "\<lfloor>q\<rfloor> < \<lfloor>q'\<rfloor>"
    using floor_mono [of q q'] by linarith
  then show ?thesis
    using round_half_even_bounds(2) [of q] round_half_even_bounds(1) [of q'] by linarith
qed

lemma round_half_even_nonneg: "0 \<le> q \<Longrightarrow> 0 \<le> round_half_even q"
  using round_half_even_mono [of 0 q] round_half_even_of_int [of 0] by simp

lemma round_half_even_pow2: "0 \<le> n \<Longrightarrow> round_half_even (2 powi n) = 2 ^ nat n"
proof -
  assume "0 \<le> n"
  then have "(2::real) powi n = of_int (2 ^ nat n)"
    by (simp add: power_int_nonneg_exp)
  then show ?thesis
    by (simp only: round_half_even_of_int)
qed

lemma powr_powi: "(2::real) powr (of_int k) = 2 powi k" "(2::real) powr (of_int k + 1) = 2 powi (k + 1)"
  using powr_real_of_int' [of 2 k] powr_real_of_int' [of 2 "k + 1"] by simp_all

lemma binade:
  assumes "0 < v"
  shows "2 powi \<lfloor>log 2 v\<rfloor> \<le> v" and "v < 2 powi (\<lfloor>log 2 v\<rfloor> + 1)"
  using floor_log_eq_powr_iff [of v 2 "\<lfloor>log 2 v\<rfloor>"] assms by (simp_all add: powr_powi)

lemma binade_unique:
  assumes "0 < v" "2 powi k \<le> v" "v < 2 powi (k + 1)"
  shows "\<lfloor>log 2 v\<rfloor> = k"
  using floor_log_eq_powr_iff [of v 2 k] assms by (simp add: powr_powi)

lemma round_double_pos:
  "0 < v \<Longrightarrow> round_double v =
     of_int (round_half_even (v / 2 powi ulp_exponent v)) * 2 powi ulp_exponent v"
  by (simp add: round_double_def)

lemma round_double_minus: "round_double (- v) = - round_double v"
  by (simp add: round_double_def ulp_exponent_def sgn_minus)

lemma round_double_zero [simp]: "round_double 0 = 0"
  by (simp add: round_double_def)

lemma grid_upper:
  assumes "v \<le> 2 powi M" "e \<le> M"
  shows "of_int (round_half_even (v / 2 powi e)) * 2 powi e \<le> (2::real) powi M"
proof -
  have "v / 2 powi e \<le> 2 powi M / 2 powi e"
    using assms(1) by (intro divide_right_mono) simp_all
  also have "\<dots> = (2::real) powi (M - e)"
    by (simp add: power_int_diff)
  finally have "round_half_even (v / 2 powi e) \<le> round_half_even (2 powi (M - e))"
    by (rule round_half_even_mono)
  also have "\<dots> = 2 ^ nat (M - e)"
    using assms(2) by (intro round_half_even_pow2) simp
  finally have "real_of_int (round_half_even (v / 2 powi e)) \<le> of_int (2 ^ nat (M - e))"
    by (simp only: of_int_le_iff)
  also have "\<dots> = (2::real) powi (M - e)"
    using assms(2) by (simp add: power_int_nonneg_exp)
  finally have "of_int (round_half_even (v / 2 powi e)) * 2 powi e \<le> 2 powi (M - e) * (2::real) powi e"
    by (intro mult_right_mono) simp_all
  also have "\<dots> = (2::real) powi M"
    by (simp flip: power_int_add)
  finally show ?thesis .
qed

lemma grid_lower:
  assumes "2 powi k \<le> v" "e \<le> k"
  shows "(2::real) powi k \<le> of_int (round_half_even (v / 2 powi e)) * 2 powi e"
proof -
  have "(2::real) powi (k - e) = 2 powi k / 2 powi e"
    by (simp add: power_int_diff)
  also have "\<dots> \<le> v / 2 powi e"
    using assms(1) by (intro divide_right_mono) simp_all
  finally have "round_half_even (2 powi (k - e)) \<le> round_half_even (v / 2 powi e)"
    by (rule round_half_even_mono)
  moreover have "round_half_even (2 powi (k - e)) = 2 ^ nat (k - e)"
    using assms(2) by (intro round_half_even_pow2) simp
  ultimately have a: "real_of_int (2 ^ nat (k - e)) \<le> real_of_int (round_half_even (v / 2 powi e))"
    by (simp only: of_int_le_iff)
  have b: "real_of_int (2 ^ nat (k - e)) = (2::real) powi (k - e)"
    using assms(2) by (simp add: power_int_nonneg_exp)
  from a have "(2::real) powi (k - e) \<le> real_of_int (round_half_even (v / 2 powi e))"
    unfolding b .
  then have "2 powi (k - e) * (2::real) powi e
      \<le> of_int (round_half_even (v / 2 powi e)) * 2 powi e"
    by (intro mult_right_mono) simp_all
  then show ?thesis
    by (simp flip: power_int_add)
qed

lemma floor_log_mono: "0 < x \<Longrightarrow> x \<le> y \<Longrightarrow> \<lfloor>log 2 x\<rfloor> \<le> \<lfloor>log 2 y\<rfloor>"
  by (intro floor_mono) simp

lemma round_double_mono_pos:
  assumes "0 < x" "x \<le> y"
  shows "round_double x \<le> round_double y"
proof -
  define kx ky where "kx = \<lfloor>log 2 x\<rfloor>" and "ky = \<lfloor>log 2 y\<rfloor>"
  define ex ey where "ex = ulp_exponent x" and "ey = ulp_exponent y"
  have y: "0 < y"
    using assms by linarith
  have k: "kx \<le> ky"
    unfolding kx_def ky_def by (rule floor_log_mono [OF assms])
  have e: "ex = max (kx - 52) (- 1074)" "ey = max (ky - 52) (- 1074)"
    using assms(1) y by (simp_all add: ex_def ey_def ulp_exponent_def kx_def ky_def)
  have rx: "round_double x = of_int (round_half_even (x / 2 powi ex)) * 2 powi ex"
    unfolding ex_def by (rule round_double_pos [OF assms(1)])
  have ry: "round_double y = of_int (round_half_even (y / 2 powi ey)) * 2 powi ey"
    unfolding ey_def by (rule round_double_pos [OF y])
  show ?thesis
  proof (cases "ex = ey")
    case True
    have "x / 2 powi ey \<le> y / 2 powi ey"
      using assms(2) by (intro divide_right_mono) simp_all
    then have "round_half_even (x / 2 powi ey) \<le> round_half_even (y / 2 powi ey)"
      by (rule round_half_even_mono)
    then have "real_of_int (round_half_even (x / 2 powi ey)) * 2 powi ey
        \<le> real_of_int (round_half_even (y / 2 powi ey)) * 2 powi ey"
      by (intro mult_right_mono) simp_all
    then show ?thesis
      by (simp add: rx ry True)
  next
    case False
    with e k have less: "ex < ey" and ey: "ey = ky - 52" and kk: "kx + 1 \<le> ky"
      by linarith+
    have "x < 2 powi (kx + 1)"
      unfolding kx_def by (rule binade(2) [OF assms(1)])
    also have "\<dots> \<le> (2::real) powi ky"
      using kk by (intro power_int_increasing) simp_all
    finally have "x \<le> 2 powi ky"
      by simp
    moreover have "ex \<le> ky"
      using less ey by linarith
    ultimately have "round_double x \<le> 2 powi ky"
      unfolding rx by (rule grid_upper)
    moreover have "2 powi ky \<le> y"
      unfolding ky_def by (rule binade(1) [OF y])
    then have "2 powi ky \<le> round_double y"
      unfolding ry using ey by (intro grid_lower) simp_all
    ultimately show ?thesis
      by linarith
  qed
qed

lemma round_double_nonneg: "0 \<le> v \<Longrightarrow> 0 \<le> round_double v"
  by (simp add: round_double_def round_half_even_nonneg sgn_if)

lemma round_double_mono:
  assumes "x \<le> y"
  shows "round_double x \<le> round_double y"
proof -
  consider "0 < x" | "x \<le> 0" "0 \<le> y" | "y < 0"
    using assms by linarith
  then show ?thesis
  proof cases
    case 1
    then show ?thesis using assms by (rule round_double_mono_pos)
  next
    case 2
    have "0 \<le> round_double (- x)"
      using 2(1) by (intro round_double_nonneg) simp
    then have "round_double x \<le> 0"
      by (simp add: round_double_minus)
    then show ?thesis
      using round_double_nonneg [OF 2(2)] by linarith
  next
    case 3
    then have "round_double (- y) \<le> round_double (- x)"
      using assms by (intro round_double_mono_pos) simp_all
    then show ?thesis
      by (simp add: round_double_minus)
  qed
qed

lemma round_double_pow2:
  assumes "- 1074 \<le> n"
  shows "round_double (2 powi n) = 2 powi n"
proof -
  have pos: "0 < (2::real) powi n"
    by simp
  have "\<lfloor>log 2 ((2::real) powi n)\<rfloor> = n"
    by (rule binade_unique [OF pos]) (simp_all add: power_int_add)
  then have e: "ulp_exponent (2 powi n) = max (n - 52) (- 1074)"
    by (simp add: ulp_exponent_def)
  define e where "e = max (n - 52) (- 1074)"
  have le: "e \<le> n"
    using assms by (simp add: e_def)
  have "(2::real) powi n / 2 powi e = 2 powi (n - e)"
    by (simp add: power_int_diff)
  then have "round_half_even (2 powi n / 2 powi e) = 2 ^ nat (n - e)"
    using le by (simp add: round_half_even_pow2)
  then have "real_of_int (round_half_even (2 powi n / 2 powi e)) * 2 powi e
      = 2 powi (n - e) * 2 powi e"
    using le by (simp add: power_int_nonneg_exp)
  also have "\<dots> = (2::real) powi n"
    by (simp flip: power_int_add)
  finally show ?thesis
    unfolding round_double_pos [OF pos] e e_def [symmetric] .
qed

lemma round_double_min_subnormal:
  assumes "round_double v \<noteq> 0"
  shows "2 powi (- 1074) \<le> \<bar>round_double v\<bar>"
proof -
  define e where "e = ulp_exponent v"
  define i where "i = round_half_even (\<bar>v\<bar> / 2 powi e)"
  have rd: "round_double v = sgn v * (of_int i * 2 powi e)"
    by (simp add: round_double_def e_def i_def)
  with assms have "i \<noteq> 0" "v \<noteq> 0"
    by auto
  then have "1 \<le> \<bar>real_of_int i\<bar>"
    by (simp flip: of_int_abs)
  then have "1 * 2 powi e \<le> \<bar>real_of_int i\<bar> * (2::real) powi e"
    by (intro mult_right_mono) simp_all
  moreover have "(2::real) powi (- 1074) \<le> 2 powi e"
    by (intro power_int_increasing) (simp_all add: e_def ulp_exponent_def)
  moreover have "\<bar>round_double v\<bar> = \<bar>real_of_int i\<bar> * 2 powi e"
    using \<open>v \<noteq> 0\<close> by (simp add: rd abs_mult)
  ultimately show ?thesis
    by linarith
qed

lemma round_double_eval:
  assumes "0 < v" "2 powi k \<le> v" "v < 2 powi (k + 1)" "- 1022 \<le> k"
  shows "round_double v = of_int (round_half_even (v / 2 powi (k - 52))) * 2 powi (k - 52)"
proof -
  have "\<lfloor>log 2 v\<rfloor> = k"
    by (rule binade_unique [OF assms(1-3)])
  then have "ulp_exponent v = k - 52"
    using assms(1,4) by (simp add: ulp_exponent_def)
  then show ?thesis
    by (simp add: round_double_pos [OF assms(1)])
qed

lemma straight_angle_product:
  "round_double (884279719003555 / 2 ^ 48 * 180) = 4974073419394997 / 2 ^ 43"
proof -
  have "round_double (884279719003555 / 2 ^ 48 * 180)
      = of_int (round_half_even (884279719003555 / 2 ^ 48 * 180 / 2 powi (9 - 52))) * 2 powi (9 - 52)"
    by (rule round_double_eval) simp_all
  also have "round_half_even (884279719003555 / 2 ^ 48 * 180 / 2 powi (9 - 52)) = 4974073419394997"
    by (simp add: round_half_even_def power_int_minus)
  finally show ?thesis
    by (simp add: power_int_minus)
qed

lemma straight_angle_quotient:
  "round_double (4974073419394997 / 2 ^ 43 / (884279719003555 / 2 ^ 48)) = 180"
proof -
  have "round_double (4974073419394997 / 2 ^ 43 / (884279719003555 / 2 ^ 48))
      = of_int (round_half_even (4974073419394997 / 2 ^ 43 / (884279719003555 / 2 ^ 48)
                                  / 2 powi (7 - 52))) * 2 powi (7 - 52)"
    by (rule round_double_eval) simp_all
  also have "round_half_even (4974073419394997 / 2 ^ 43 / (884279719003555 / 2 ^ 48)
                                  / 2 powi (7 - 52)) = 6333186975989760"
    by (simp add: round_half_even_def power_int_minus)
  finally show ?thesis
    by (simp add: power_int_minus)
qed

lemma admissible_double_arith: "admissible double_arith"
proof -
  have mono: "\<forall>v w. v \<le> w \<longrightarrow> round_double v \<le> round_double w"
    by (simp add: round_double_mono)
  have sym: "\<forall>v. round_double (- v) = - round_double v"
    by (simp add: round_double_minus)
  have fixed: "\<forall>n. - 1074 \<le> n \<and> n \<le> 1023 \<longrightarrow> round_double (2 powi n) = 2 powi n"
    by (simp add: round_double_pow2)
  have small: "\<forall>v. round_double v \<noteq> 0 \<longrightarrow> 2 powi (- 1074) \<le> \<bar>round_double v\<bar>"
    using round_double_min_subnormal by blast
  have PI: "2 \<le> (884279719003555 / 2 ^ 48 :: real)" "(884279719003555 / 2 ^ 48 :: real) \<le> 4"
    by simp_all
  have straight: "round_double (round_double (884279719003555 / 2 ^ 48 * 180)
                                 / (884279719003555 / 2 ^ 48)) = 180"
    unfolding straight_angle_product by (rule straight_angle_quotient)
  have ac: "\<forall>v. - 1 \<le> v \<and> v \<le> 1 \<longrightarrow>
      0 \<le> min (884279719003555 / 2 ^ 48) (round_double (arccos v))
      \<and> min (884279719003555 / 2 ^ 48) (round_double (arccos v)) \<le> 884279719003555 / 2 ^ 48"
  proof (intro allI impI conjI)
    fix v :: real
    assume "- 1 \<le> v \<and> v \<le> 1"
    then have "0 \<le> round_double (arccos v)"
      by (intro round_double_nonneg arccos_lbound) simp_all
    moreover have "0 \<le> (884279719003555 / 2 ^ 48 :: real)"
      by simp
    ultimately show "0 \<le> min (884279719003555 / 2 ^ 48) (round_double (arccos v))"
      by (rule min.boundedI [rotated])
    show "min (884279719003555 / 2 ^ 48) (round_double (arccos v)) \<le> 884279719003555 / 2 ^ 48"
      by (rule min.cobounded1)
  qed
  show ?thesis
    unfolding admissible_def double_arith_def
    using mono sym fixed small PI straight ac by simp
qed

text \<open>
  C9, as the code has it. The claim is for every three input points. With
  \<open>a = c = (2 ^ 700, 0)\<close> and \<open>b\<close> the origin, both squares \<open>2 ^ 1400\<close> overflow to
  infinity; the dot product and both lengths are infinite, no length is zero, the
  quotient of two infinities is \<open>NaN\<close>, and the clamp, the inverse cosine and the
  conversion hand \<open>NaN\<close> on.
\<close>

theorem angleBetween3_overflow_counterexample:
  "angleBetween3 double_arith \<lparr>px = 2 ^ 700, py = 0\<rparr> \<lparr>px = 0, py = 0\<rparr> \<lparr>px = 2 ^ 700, py = 0\<rparr>
     = NaN"
proof -
  have r1: "round_double (2 ^ 700) = 2 ^ 700"
    using round_double_pow2 [of 700] by simp
  have r2: "round_double (2 ^ 700 * 2 ^ 700) = 2 ^ 1400"
    using round_double_pow2 [of 1400] by simp
  have d: "fl double_arith (2 ^ 700 - 0) = Finite (2 ^ 700)" "fl double_arith (0 - 0) = Finite 0"
    using r1 by (simp_all add: fl_def double_arith_def MAX_VALUE_def)
  have sq: "fl_mul double_arith (Finite (2 ^ 700)) (Finite (2 ^ 700)) = PosInfinity"
    using r2 by (simp add: fl_def double_arith_def MAX_VALUE_def)
  have z: "fl_mul double_arith (Finite 0) (Finite 0) = Finite 0"
    by (simp add: fl_def double_arith_def MAX_VALUE_def)
  show ?thesis
    unfolding angleBetween3_def Let_def point.simps d sq z
    by (simp add: signed_infinity_def)
qed

text \<open>
  C9, amended. For every three points whose coordinates are finite and at most
  \<open>2 ^ 500\<close> in magnitude (normalized image coordinates are), \<open>angleBetween3\<close> returns
  a finite number of degrees between 0 and 180, never \<open>NaN\<close>, in every admissible
  arithmetic, that of doubles among them. A ray of length zero short-circuits to 0, so
  the divisor is never zero; and the quotient, which rounding may push beyond 1 or to an
  infinity, is clamped to \<open>[-1, 1]\<close> before the inverse cosine.
\<close>

theorem angleBetween3_total:
  assumes "admissible ar" and "in_range a" and "in_range b" and "in_range c"
  shows "(\<exists>d. angleBetween3 ar a b c = Finite d \<and> 0 \<le> d \<and> d \<le> 180)
       \<and> angleBetween3 ar b b c = Finite 0 \<and> angleBetween3 ar a b b = Finite 0"
proof -
  note adm = assms(1)
  let ?bax = "fl_round ar (px a - px b)" and ?bay = "fl_round ar (py a - py b)"
  let ?bcx = "fl_round ar (px c - px b)" and ?bcy = "fl_round ar (py c - py b)"
  note ax = difference_finite [OF adm, of "px a" "px b"]
   and ay = difference_finite [OF adm, of "py a" "py b"]
   and cx = difference_finite [OF adm, of "px c" "px b"]
   and cy = difference_finite [OF adm, of "py c" "py b"]
  have r: "\<bar>px a\<bar> \<le> 2 ^ 500" "\<bar>py a\<bar> \<le> 2 ^ 500" "\<bar>px b\<bar> \<le> 2 ^ 500" "\<bar>py b\<bar> \<le> 2 ^ 500"
      "\<bar>px c\<bar> \<le> 2 ^ 500" "\<bar>py c\<bar> \<le> 2 ^ 500"
    using assms(2-4) by (simp_all add: in_range_def)
  have diffs: "fl ar (px a - px b) = Finite ?bax" "fl ar (py a - py b) = Finite ?bay"
      "fl ar (px c - px b) = Finite ?bcx" "fl ar (py c - py b) = Finite ?bcy"
    using ax(1) ay(1) cx(1) cy(1) r by blast+
  have bounds: "\<bar>?bax\<bar> \<le> 2 powi 501" "\<bar>?bay\<bar> \<le> 2 powi 501"
      "\<bar>?bcx\<bar> \<le> 2 powi 501" "\<bar>?bcy\<bar> \<le> 2 powi 501"
    using ax(2) ay(2) cx(2) cy(2) r by blast+
  obtain m where m: "fl_sqrt ar (fl_add ar (fl_mul ar (Finite ?bax) (Finite ?bax))
                                          (fl_mul ar (Finite ?bay) (Finite ?bay))) = Finite m"
      "m = 0 \<or> 2 powi (- 537) \<le> m" "m \<le> 2 powi 502"
    using magnitude [OF adm bounds(1,2)] by blast
  obtain m' where m': "fl_sqrt ar (fl_add ar (fl_mul ar (Finite ?bcx) (Finite ?bcx))
                                            (fl_mul ar (Finite ?bcy) (Finite ?bcy))) = Finite m'"
      "m' = 0 \<or> 2 powi (- 537) \<le> m'" "m' \<le> 2 powi 502"
    using magnitude [OF adm bounds(3,4)] by blast
  obtain dt where dt: "fl_add ar (fl_mul ar (Finite ?bax) (Finite ?bcx))
                                 (fl_mul ar (Finite ?bay) (Finite ?bcy)) = Finite dt"
    using dot_finite [OF adm bounds(1,2,3,4)] by blast
  have body: "angleBetween3 ar a b c =
      (if m = 0 \<or> m' = 0 then Finite 0
       else fl_div ar
              (fl_mul ar
                 (Math_acos ar (Math_max (- 1) (Math_min 1
                    (fl_div ar (Finite dt) (fl_mul ar (Finite m) (Finite m'))))))
                 (Finite 180))
              (Finite (Math_PI ar)))"
    unfolding angleBetween3_def Let_def diffs m m' dt by simp
  have "\<exists>d. angleBetween3 ar a b c = Finite d \<and> 0 \<le> d \<and> d \<le> 180"
  proof (cases "m = 0 \<or> m' = 0")
    case True
    then show ?thesis by (simp add: body)
  next
    case False
    with m(2) m'(2) have low: "2 powi (- 537) \<le> m" "2 powi (- 537) \<le> m'"
      by blast+
    have "fl_div ar (Finite dt) (fl_mul ar (Finite m) (Finite m')) \<noteq> NaN"
      by (rule quotient_not_NaN [OF adm low(1) m(3) low(2) m'(3)])
    then obtain v where v: "Math_max (- 1) (Math_min 1
        (fl_div ar (Finite dt) (fl_mul ar (Finite m) (Finite m')))) = Finite v"
        "- 1 \<le> v" "v \<le> 1"
      using clamp_range by blast
    have eq: "angleBetween3 ar a b c =
        fl_div ar (fl_mul ar (Math_acos ar (Finite v)) (Finite 180)) (Finite (Math_PI ar))"
      using False unfolding body v(1) by (simp only: if_False)
    show ?thesis
      unfolding eq by (rule degrees_range [OF adm v(2,3)])
  qed
  then show ?thesis
    using coincident_left [OF adm] coincident_right [OF adm] by blast
qed

theorem angleBetween3_total_witness:
  "admissible double_arith
   \<and> in_range \<lparr>px = 1, py = 0\<rparr> \<and> in_range \<lparr>px = 0, py = 0\<rparr> \<and> in_range \<lparr>px = 0, py = 1\<rparr>
   \<and> (\<exists>d. angleBetween3 double_arith \<lparr>px = 1, py = 0\<rparr> \<lparr>px = 0, py = 0\<rparr> \<lparr>px = 0, py = 1\<rparr>
            = Finite d \<and> 0 \<le> d \<and> d \<le> 180)
   \<and> angleBetween3 double_arith \<lparr>px = 0, py = 0\<rparr> \<lparr>px = 0, py = 0\<rparr> \<lparr>px = 0, py = 1\<rparr> = Finite 0
   \<and> angleBetween3 double_arith \<lparr>px = 1, py = 0\<rparr> \<lparr>px = 0, py = 0\<rparr> \<lparr>px = 0, py = 0\<rparr> = Finite 0"
proof -
  have r: "in_range \<lparr>px = 1, py = 0\<rparr>" "in_range \<lparr>px = 0, py = 0\<rparr>" "in_range \<lparr>px = 0, py = 1\<rparr>"
    by (simp_all add: in_range_def)
  show ?thesis
    using angleBetween3_total [OF admissible_double_arith r] admissible_double_arith r
    by simp
qed

text \<open>
  The clamp at work: at \<open>a = c = (2, 3)\<close> and \<open>b\<close> the origin both lengths are the
  double next to the root of 13, their product rounds to \<open>13 - 2 powi - 49\<close>, and the
  quotient is \<open>1 + 2 powi - 52\<close>, where the inverse cosine is \<open>NaN\<close>. Clamped to 1,
  the angle is 0.
\<close>

lemma round_half_even_nearest:
  assumes "\<bar>q - of_int n\<bar> < 1 / 2"
  shows "round_half_even q = n"
proof -
  consider "of_int n \<le> q" | "q < of_int n"
    by linarith
  then show ?thesis
  proof cases
    case 1
    with assms have "\<lfloor>q\<rfloor> = n"
      by (intro floor_unique) linarith+
    with assms 1 show ?thesis
      by (simp add: round_half_even_def Let_def)
  next
    case 2
    have "real_of_int (n - 1) = real_of_int n - 1"
      by simp
    with assms 2 have "of_int (n - 1) \<le> q" "q < of_int (n - 1) + 1"
      by linarith+
    then have "\<lfloor>q\<rfloor> = n - 1"
      by (rule floor_unique)
    with assms 2 show ?thesis
      by (auto simp add: round_half_even_def Let_def)
  qed
qed

lemma sqrt_13_double: "round_double (sqrt 13) = 8118979690322419 / 2 ^ 51"
proof -
  have lo: "(8118979690322419 - 1 / 2) / 2 ^ 51 < sqrt 13"
    by (rule real_less_rsqrt) (simp add: power2_eq_square)
  have hi: "sqrt 13 < (8118979690322419 + 1 / 2) / 2 ^ 51"
    by (rule real_less_lsqrt) (simp_all add: power2_eq_square)
  have b: "2 powi 1 \<le> sqrt 13" "sqrt 13 < 2 powi (1 + 1)"
    using lo hi by simp_all
  have "round_double (sqrt 13)
      = of_int (round_half_even (sqrt 13 / 2 powi (1 - 52))) * 2 powi (1 - 52)"
    using b by (intro round_double_eval) simp_all
  moreover have q: "sqrt 13 / 2 powi (1 - 52) = sqrt 13 * 2251799813685248"
    by (simp add: power_int_minus)
  have "8118979690322419 - 1 / 2 < sqrt 13 * 2251799813685248"
       "sqrt 13 * 2251799813685248 < 8118979690322419 + 1 / 2"
    using lo hi by (simp_all add: field_simps)
  then have "\<bar>sqrt 13 / 2 powi (1 - 52) - of_int 8118979690322419\<bar> < 1 / 2"
    unfolding q abs_less_iff by simp
  then have "round_half_even (sqrt 13 / 2 powi (1 - 52)) = 8118979690322419"
    by (rule round_half_even_nearest)
  ultimately show ?thesis
    by (simp add: power_int_minus)
qed

lemma square_of_sqrt_13_double:
  "round_double (8118979690322419 / 2 ^ 51 * (8118979690322419 / 2 ^ 51))
     = 7318349394477055 / 2 ^ 49"
proof -
  have "round_double (8118979690322419 / 2 ^ 51 * (8118979690322419 / 2 ^ 51))
      = of_int (round_half_even (8118979690322419 / 2 ^ 51 * (8118979690322419 / 2 ^ 51)
                                  / 2 powi (3 - 52))) * 2 powi (3 - 52)"
    by (rule round_double_eval) simp_all
  also have "round_half_even (8118979690322419 / 2 ^ 51 * (8118979690322419 / 2 ^ 51)
                                  / 2 powi (3 - 52)) = 7318349394477055"
    by (simp add: round_half_even_def power_int_minus)
  finally show ?thesis
    by (simp add: power_int_minus)
qed

lemma quotient_13_double:
  "round_double (13 / (7318349394477055 / 2 ^ 49)) = 1 + 1 / 2 ^ 52"
proof -
  have "round_double (13 / (7318349394477055 / 2 ^ 49))
      = of_int (round_half_even (13 / (7318349394477055 / 2 ^ 49) / 2 powi (0 - 52)))
          * 2 powi (0 - 52)"
    by (rule round_double_eval) simp_all
  also have "round_half_even (13 / (7318349394477055 / 2 ^ 49) / 2 powi (0 - 52))
      = 4503599627370497"
    by (simp add: round_half_even_def power_int_minus)
  finally show ?thesis
    by (simp add: power_int_minus)
qed

lemma round_double_small_int:
  assumes "0 < n" "n < 2 ^ 53"
  shows "round_double (of_int n) = of_int n"
proof -
  define k where "k = \<lfloor>log 2 (real_of_int n)\<rfloor>"
  have pos: "0 < real_of_int n"
    using assms(1) by simp
  have lo: "2 powi k \<le> real_of_int n" and hi: "real_of_int n < 2 powi (k + 1)"
    unfolding k_def using binade [OF pos] by simp_all
  have "(2::real) powi 0 \<le> real_of_int n"
    using assms(1) by simp
  then have l0: "(2::real) powi 0 < 2 powi (k + 1)"
    using hi by linarith
  have k0: "0 \<le> k"
  proof (rule ccontr)
    assume "\<not> 0 \<le> k"
    then have "(2::real) powi (k + 1) \<le> 2 powi 0"
      by (intro power_int_increasing) simp_all
    with l0 show False by linarith
  qed
  have "real_of_int n < 2 powi 53"
    using assms(2) by (simp flip: of_int_less_iff)
  then have l53: "(2::real) powi k < 2 powi 53"
    using lo by linarith
  have k52: "k \<le> 52"
  proof (rule ccontr)
    assume "\<not> k \<le> 52"
    then have "(2::real) powi 53 \<le> 2 powi k"
      by (intro power_int_increasing) simp_all
    with l53 show False by linarith
  qed
  have e: "ulp_exponent (of_int n) = k - 52"
    using pos k0 by (simp add: ulp_exponent_def k_def)
  have "real_of_int n / 2 powi (k - 52) = real_of_int n * 2 powi (52 - k)"
    by (simp add: power_int_diff)
  also have "\<dots> = of_int (n * 2 ^ nat (52 - k))"
    using k52 by (simp add: power_int_nonneg_exp)
  finally have "round_half_even (real_of_int n / 2 powi (k - 52)) = n * 2 ^ nat (52 - k)"
    by (simp only: round_half_even_of_int)
  then have "round_double (of_int n) = of_int (n * 2 ^ nat (52 - k)) * 2 powi (k - 52)"
    by (simp only: round_double_pos [OF pos] e)
  also have "\<dots> = of_int n * (2 powi (52 - k) * 2 powi (k - 52))"
    using k52 by (simp add: power_int_nonneg_exp)
  also have "\<dots> = of_int n"
    by (simp flip: power_int_add)
  finally show ?thesis .
qed


lemma small_int_doubles:
  "round_double 2 = 2" "round_double 3 = 3" "round_double 4 = 4" "round_double 9 = 9"
  "round_double 13 = 13"
  using round_double_small_int [of 2] round_double_small_int [of 3] round_double_small_int [of 4]
    round_double_small_int [of 9] round_double_small_int [of 13]
  by simp_all

lemma fl_double_finite:
  "\<bar>round_double v\<bar> \<le> 16 \<Longrightarrow> fl double_arith v = Finite (round_double v)"
  by (auto simp add: fl_def double_arith_def MAX_VALUE_def)

lemma quotient_overshoot:
  "fl_div double_arith (Finite 13)
     (fl_mul double_arith (fl_sqrt double_arith (Finite 13)) (fl_sqrt double_arith (Finite 13)))
   = Finite (1 + 1 / 2 ^ 52)"
proof -
  have m: "fl_sqrt double_arith (Finite 13) = Finite (8118979690322419 / 2 ^ 51)"
    by (simp add: double_arith_def sqrt_13_double)
  have p: "fl_mul double_arith (Finite (8118979690322419 / 2 ^ 51))
      (Finite (8118979690322419 / 2 ^ 51)) = Finite (7318349394477055 / 2 ^ 49)"
  proof -
    have "fl double_arith (8118979690322419 / 2 ^ 51 * (8118979690322419 / 2 ^ 51))
        = Finite (round_double (8118979690322419 / 2 ^ 51 * (8118979690322419 / 2 ^ 51)))"
      by (rule fl_double_finite) (simp only: square_of_sqrt_13_double, simp)
    then show ?thesis
      by (simp only: fl_mul.simps square_of_sqrt_13_double)
  qed
  have q: "fl_div double_arith (Finite 13) (Finite (7318349394477055 / 2 ^ 49))
      = Finite (1 + 1 / 2 ^ 52)"
  proof -
    have "fl double_arith (13 / (7318349394477055 / 2 ^ 49))
        = Finite (round_double (13 / (7318349394477055 / 2 ^ 49)))"
      by (rule fl_double_finite) (simp only: quotient_13_double, simp)
    moreover have "(7318349394477055 / 2 ^ 49 :: real) \<noteq> 0"
      by simp
    ultimately show ?thesis
      by (simp only: fl_div.simps quotient_13_double if_True simp_thms)
  qed
  show ?thesis
    unfolding m p q ..
qed

lemma acos_beyond_one: "Math_acos ar (Finite (1 + 1 / 2 ^ 52)) = NaN"
  by simp

lemma clamp_at_work:
  "angleBetween3 double_arith \<lparr>px = 2, py = 3\<rparr> \<lparr>px = 0, py = 0\<rparr> \<lparr>px = 2, py = 3\<rparr> = Finite 0"
proof -
  have d: "fl double_arith (2 - 0) = Finite 2" "fl double_arith (3 - 0) = Finite 3"
    using fl_double_finite [of 2] fl_double_finite [of 3] by (simp_all add: small_int_doubles)
  have sq: "fl_mul double_arith (Finite 2) (Finite 2) = Finite 4"
      "fl_mul double_arith (Finite 3) (Finite 3) = Finite 9"
    using fl_double_finite [of 4] fl_double_finite [of 9] by (simp_all add: small_int_doubles)
  have sm: "fl_add double_arith (Finite 4) (Finite 9) = Finite 13"
    using fl_double_finite [of 13] by (simp add: small_int_doubles)
  have cl: "Math_max (- 1) (Math_min 1 (Finite (1 + 1 / 2 ^ 52))) = Finite 1"
    by simp
  have ac: "Math_acos double_arith (Finite 1) = Finite 0"
    by (simp add: double_arith_def)
  have dg: "fl_div double_arith (fl_mul double_arith (Finite 0) (Finite 180))
      (Finite (Math_PI double_arith)) = Finite 0"
    using fl_double_finite [of 0] by (simp add: double_arith_def)
  have ne: "fl_sqrt double_arith (Finite 13) \<noteq> Finite 0"
    by (simp add: double_arith_def sqrt_13_double)
  show ?thesis
    unfolding angleBetween3_def Let_def point.simps d sq sm
    using ne by (simp only: quotient_overshoot cl ac dg if_False simp_thms)
qed

text \<open>
  C6. On the empty log the session aggregator returns the explicit no-pose result, and
  on no other log: none of the averages, percentages or scores is computed, so there is
  no division by a zero count and nothing that is not a number.
\<close>

theorem showDiagnoseReport_empty_log:
  "showDiagnoseReport [] = NoPoseDetected
   \<and> (showDiagnoseReport diagnoseLog = NoPoseDetected) = (diagnoseLog = [])"
  by (simp add: showDiagnoseReport_def)

lemma computeElbowHeight_consistent:
  "elbow_consistent (m\<lparr>m_elbow := Some (computeElbowHeight shoulder elbow rHip lHip)\<rparr>)"
  by (simp add: elbow_consistent_def computeElbowHeight_def Let_def)

lemma first_issue_append:
  "first_issue (xs @ ys) = (case first_issue xs of Some msg \<Rightarrow> Some msg | None \<Rightarrow> first_issue ys)"
  by (induction xs rule: first_issue.induct) simp_all

lemma straightness_issue:
  "(case m_straightness m of
      None \<Rightarrow> []
    | Some s \<Rightarrow>
        if straightness_status s = Bad then [StraightnessBad]
        else if straightness_status s = Warn then [StraightnessWarn]
        else [])
   = (case first_issue (straightness_entry m) of None \<Rightarrow> [] | Some msg \<Rightarrow> [msg])"
proof (cases "m_straightness m")
  case None
  then show ?thesis by (simp add: straightness_entry_def)
next
  case (Some s)
  then show ?thesis by (cases "straightness_status s") (simp_all add: straightness_entry_def)
qed

lemma elbow_issue:
  assumes "elbow_consistent m"
  shows "(case m_elbow m of
      None \<Rightarrow> []
    | Some e \<Rightarrow>
        if elbow_status e = Bad then [ElbowTooLow]
        else if elbow_label e = TooHigh then [ElbowTooHigh]
        else if elbow_status e = Warn then [ElbowRaise]
        else [])
   = (case first_issue (elbow_entry m) of None \<Rightarrow> [] | Some msg \<Rightarrow> [msg])"
proof (cases "m_elbow m")
  case None
  then show ?thesis by (simp add: elbow_entry_def)
next
  case (Some e)
  with assms show ?thesis
    by (cases "elbow_status e") (auto simp add: elbow_entry_def elbow_consistent_def split: if_splits)
qed

lemma shoulder_issue:
  "(case m_shoulder m of
      None \<Rightarrow> []
    | Some s \<Rightarrow>
        if shoulder_status s = Bad then [ShoulderBad]
        else if shoulder_status s = Warn then
          (if shoulder_label s = Asymmetric then [ShoulderAsymmetric] else [ShoulderRaised])
        else [])
   = (case first_issue (shoulder_entry m) of None \<Rightarrow> [] | Some msg \<Rightarrow> [msg])"
proof (cases "m_shoulder m")
  case None
  then show ?thesis by (simp add: shoulder_entry_def)
next
  case (Some s)
  then show ?thesis by (cases "shoulder_status s") (simp_all add: shoulder_entry_def)
qed

text \<open>
  C7, as the code has it. The claim has the positive message special-cased for a
  distribution labelled balanced or full bow, and a positive message whenever all three
  statuses are good. With every status good and the default (balanced) label the selector
  returns the generic positive message, the one it returns for any other label; and it
  tests the elbow label "too high" without looking at the elbow status, so a record
  whose elbow entry is good but labelled "too high" gets the elbow message.
\<close>

theorem generateAdvice_counterexample:
  "generateAdvice (good_metrics Even ElbowOK) = PositiveGeneric
   \<and> advice_as_specified (good_metrics Even ElbowOK) = PositiveFullBow
   \<and> generateAdvice (good_metrics TipHeavy TooHigh) = ElbowTooHigh
   \<and> advice_as_specified (good_metrics TipHeavy TooHigh) = PositiveGeneric"
  by (simp add: generateAdvice_def advice_as_specified_def good_metrics_def
        straightness_entry_def elbow_entry_def shoulder_entry_def has_label_def)

text \<open>
  C7, amended. For every metrics record whose elbow entry carries the label "too high"
  only with a status that is not good (every entry that \<open>computeElbowHeight\<close>
  produces), the selector returns one message: that of the first of straightness, elbow
  and shoulder, in this order, whose status is not good; and if all are good (or
  missing), a positive message, which is the special one exactly when the distribution
  is labelled full bow.
\<close>

theorem generateAdvice_priority:
  assumes "elbow_consistent m"
  shows "generateAdvice m = advice_by_priority m"
proof -
  have "generateAdvice m =
     (let issues =
        (case first_issue (straightness_entry m) of None \<Rightarrow> [] | Some msg \<Rightarrow> [msg])
        @ (case first_issue (elbow_entry m) of None \<Rightarrow> [] | Some msg \<Rightarrow> [msg])
        @ (case first_issue (shoulder_entry m) of None \<Rightarrow> [] | Some msg \<Rightarrow> [msg])
      in if length issues = 0 then
           (case m_distribution m of
              None \<Rightarrow> PositiveGeneric
            | Some d \<Rightarrow> if dist_label d = FullBow then PositiveFullBow else PositiveGeneric)
         else issues ! 0)"
    unfolding generateAdvice_def straightness_issue elbow_issue [OF assms] shoulder_issue
    by (simp add: Let_def)
  also have "\<dots> = advice_by_priority m"
    by (simp add: advice_by_priority_def first_issue_append has_label_def Let_def
          split: option.splits)
  finally show ?thesis .
qed

theorem generateAdvice_priority_witness:
  "elbow_consistent (good_metrics FullBow ElbowOK)
   \<and> generateAdvice (good_metrics FullBow ElbowOK) = PositiveFullBow
   \<and> elbow_consistent
       ((good_metrics Even TooHigh)
          \<lparr>m_elbow := Some \<lparr>relativeHeight = - 0.2, elbow_status = Warn, elbow_label = TooHigh\<rparr>,
           m_shoulder := Some \<lparr>tension = 30, shoulder_status = Bad, shoulder_label = Tense,
                               currentDist = 0.1\<rparr>\<rparr>)
   \<and> generateAdvice
       ((good_metrics Even TooHigh)
          \<lparr>m_elbow := Some \<lparr>relativeHeight = - 0.2, elbow_status = Warn, elbow_label = TooHigh\<rparr>,
           m_shoulder := Some \<lparr>tension = 30, shoulder_status = Bad, shoulder_label = Tense,
                               currentDist = 0.1\<rparr>\<rparr>) = ElbowTooHigh"
proof -
  let ?m1 = "good_metrics FullBow ElbowOK"
  let ?m2 = "(good_metrics Even TooHigh)
          \<lparr>m_elbow := Some \<lparr>relativeHeight = - 0.2, elbow_status = Warn, elbow_label = TooHigh\<rparr>,
           m_shoulder := Some \<lparr>tension = 30, shoulder_status = Bad, shoulder_label = Tense,
                               currentDist = 0.1\<rparr>\<rparr>"
  have c1: "elbow_consistent ?m1" and c2: "elbow_consistent ?m2"
    by (simp_all add: elbow_consistent_def good_metrics_def)
  have p1: "advice_by_priority ?m1 = PositiveFullBow"
    by (simp add: advice_by_priority_def good_metrics_def straightness_entry_def
          elbow_entry_def shoulder_entry_def has_label_def)
  have p2: "advice_by_priority ?m2 = ElbowTooHigh"
    by (simp add: advice_by_priority_def good_metrics_def straightness_entry_def
          elbow_entry_def shoulder_entry_def has_label_def)
  show ?thesis
    using generateAdvice_priority [OF c1] generateAdvice_priority [OF c2] c1 c2 p1 p2 by simp
qed

lemma log0_aggr:
  "avgStraightness log0 = Some 67"
  "avgElbow log0 = 0.1"
  "avgTension log0 = 0"
  "maxTension log0 = 0"
  "zoneCounts log0 = \<lparr>tip = 2, middle = 1, frog = 1\<rparr>"
  by (simp_all add: log0_def frame_def avgStraightness_def validStraightness_def avgElbow_def
        avgTension_def maxTension_def validTension_def zoneCounts_def Math_round_def
        List.map_filter_simps)

lemma log0_pct:
  "zone_tipPct log0 = 50" "zone_frogPct log0 = 25" "zone_midPct log0 = 25"
  by (simp_all add: zone_tipPct_def zone_frogPct_def zone_midPct_def totalZone_def log0_aggr
        Math_round_def)

lemma log0_status:
  "straightStatus log0 = Warn" "report_elbowStatus log0 = Good"
  "report_shoulderStatus log0 = Good" "distStatus log0 = Warn"
  by (simp_all add: straightStatus_def report_elbowStatus_def report_shoulderStatus_def
        distStatus_def maxZone_def minZone_def log0_aggr log0_pct)

lemma log0_overall: "overall log0 = 80"
  by (simp add: overall_def totalW_def scores_def log0_aggr log0_status Math_round_def)

lemma fold_increment_total:
  "tip (fold (\<lambda>l c. increment (bowZone l) c) lg c)
     + middle (fold (\<lambda>l c. increment (bowZone l) c) lg c)
     + frog (fold (\<lambda>l c. increment (bowZone l) c) lg c)
   = tip c + middle c + frog c + length lg"
proof (induction lg arbitrary: c)
  case Nil
  then show ?case by simp
next
  case (Cons a lg)
  then show ?case by (cases "bowZone a") simp_all
qed

lemma totalZone_length: "totalZone diagnoseLog = length diagnoseLog"
  by (simp add: totalZone_def zoneCounts_def fold_increment_total)

lemma totalW_cases:
  "totalW lg = (case avgStraightness lg of None \<Rightarrow> 5 | Some a \<Rightarrow> 8)"
  by (simp add: totalW_def scores_def split: option.splits)

lemma rounded_mean_eq:
  "rounded_mean_straightness lg = map_option real_of_int (avgStraightness lg)"
  by (simp add: rounded_mean_straightness_def mean_straightness_def avgStraightness_def
        validStraightness_def Let_def)

lemma overall_eq:
  "overall lg = Math_round (weighted_average
      (channels_of (rounded_mean_straightness lg) (report_elbowStatus lg)
                   (report_shoulderStatus lg) (distStatus lg)))"
proof -
  have e: "elbow_points s = (if s = Good then 90 else if s = Warn then 60 else 30)"
          "shoulder_points s = (if s = Good then 95 else if s = Warn then 60 else 30)"
          "spread_points s = (if s = Good then 90 else if s = Warn then 65 else 35)" for s
    by (cases s; simp)+
  show ?thesis
    unfolding rounded_mean_eq overall_def totalW_def scores_def weighted_average_def channels_of_def e
    by (cases "avgStraightness lg") simp_all
qed

text \<open>
  C5, as the code has it. The claim weighs the mean straightness. On a log whose two
  scored entries have straightness 66 and 67 (zones: two tip, one middle, one frog;
  elbow and shoulder good) the mean is 66.5, and the weighted average of 66.5, 90, 95
  and 65 with weights 3, 2, 2, 1 is 79.3125, which rounds to 79, a warn. The report
  weighs the mean rounded to 67: its score is 80, and its overall status good.
\<close>

theorem showDiagnoseReport_mean_counterexample:
  "showDiagnoseReport log0 =
     Report \<lparr>rep_avgStraightness = Some 67, rep_avgElbow = 0.1, rep_avgTension = 0,
             rep_maxTension = 0, rep_tipPct = 50, rep_midPct = 25, rep_frogPct = 25,
             rep_straightStatus = Warn, rep_elbowStatus = Good, rep_shoulderStatus = Good,
             rep_distStatus = Warn, rep_overall = 80, rep_overallStatus = Good,
             rep_overallComment = GoodBasics, rep_distLabel = TipHeavy,
             rep_elbowLabel = ElbowProper\<rparr>
   \<and> mean_straightness log0 = Some 66.5
   \<and> Math_round (weighted_average (channels_of (mean_straightness log0) Good Good Warn)) = 79"
proof -
  have a: "showDiagnoseReport log0 =
     Report \<lparr>rep_avgStraightness = Some 67, rep_avgElbow = 0.1, rep_avgTension = 0,
             rep_maxTension = 0, rep_tipPct = 50, rep_midPct = 25, rep_frogPct = 25,
             rep_straightStatus = Warn, rep_elbowStatus = Good, rep_shoulderStatus = Good,
             rep_distStatus = Warn, rep_overall = 80, rep_overallStatus = Good,
             rep_overallComment = GoodBasics, rep_distLabel = TipHeavy,
             rep_elbowLabel = ElbowProper\<rparr>"
    by (simp add: showDiagnoseReport_def log0_aggr log0_pct log0_status log0_overall
          overallStatus_def overallComment_def distLabel_def report_elbowLabel_def maxZone_def)
       (simp add: log0_def)
  have b: "mean_straightness log0 = Some 66.5"
    by (simp add: mean_straightness_def log0_def frame_def List.map_filter_simps)
  have c: "Math_round (weighted_average (channels_of (Some 66.5) Good Good Warn)) = 79"
    by (simp add: weighted_average_def channels_of_def Math_round_def)
  show ?thesis using a b c by simp
qed

text \<open>
  C5, amended. For every log with at least one entry the report exists, and its overall
  score is the weighted average of the channel scores, rounded to an integer: the mean
  straightness rounded to the nearest integer with weight 3 (left out when no entry has
  a score), the elbow status as 90/60/30 with weight 2, the shoulder status as 95/60/30
  with weight 2 and the distribution status as 90/65/35 with weight 1, divided by the
  sum of the weights used (8 or 5). The overall status is good from 80, warn from 60,
  else bad.
\<close>

theorem showDiagnoseReport_overall:
  assumes "diagnoseLog \<noteq> []"
  shows "case showDiagnoseReport diagnoseLog of
           NoPoseDetected \<Rightarrow> False
         | Report r \<Rightarrow>
             rep_overall r = Math_round (weighted_average
                (channels_of (rounded_mean_straightness diagnoseLog)
                   (rep_elbowStatus r) (rep_shoulderStatus r) (rep_distStatus r)))
           \<and> rep_overallStatus r =
                (if 80 \<le> rep_overall r then Good else if 60 \<le> rep_overall r then Warn else Bad)"
  using assms by (simp add: showDiagnoseReport_def overall_eq overallStatus_def)

theorem showDiagnoseReport_overall_witness:
  "log1 \<noteq> []
   \<and> rounded_mean_straightness log1 = None
   \<and> showDiagnoseReport log1 =
       Report \<lparr>rep_avgStraightness = None, rep_avgElbow = 0.1, rep_avgTension = 0,
               rep_maxTension = 0, rep_tipPct = 33, rep_midPct = 34, rep_frogPct = 33,
               rep_straightStatus = Good, rep_elbowStatus = Good, rep_shoulderStatus = Good,
               rep_distStatus = Good, rep_overall = 92, rep_overallStatus = Good,
               rep_overallComment = Excellent, rep_distLabel = FullBow,
               rep_elbowLabel = ElbowProper\<rparr>
   \<and> Math_round (weighted_average (channels_of None Good Good Good)) = 92"
proof -
  have ne: "log1 \<noteq> []"
    by (simp add: log1_def)
  have aggr: "avgStraightness log1 = None" "avgElbow log1 = 0.1" "avgTension log1 = 0"
      "maxTension log1 = 0" "zoneCounts log1 = \<lparr>tip = 1, middle = 1, frog = 1\<rparr>"
    by (simp_all add: log1_def frame_def avgStraightness_def validStraightness_def avgElbow_def
          avgTension_def maxTension_def validTension_def zoneCounts_def Math_round_def
          List.map_filter_simps)
  have pct: "zone_tipPct log1 = 33" "zone_frogPct log1 = 33" "zone_midPct log1 = 34"
    by (simp_all add: zone_tipPct_def zone_frogPct_def zone_midPct_def totalZone_def aggr
          Math_round_def)
  have st: "straightStatus log1 = Good" "report_elbowStatus log1 = Good"
      "report_shoulderStatus log1 = Good" "distStatus log1 = Good"
      "distLabel log1 = FullBow" "report_elbowLabel log1 = ElbowProper"
    by (simp_all add: straightStatus_def report_elbowStatus_def report_shoulderStatus_def
          distStatus_def distLabel_def report_elbowLabel_def maxZone_def minZone_def aggr pct)
  have rm: "rounded_mean_straightness log1 = None"
    by (simp add: rounded_mean_eq aggr)
  have wa: "Math_round (weighted_average (channels_of None Good Good Good)) = 92"
    by (simp add: weighted_average_def channels_of_def Math_round_def)
  have rep: "showDiagnoseReport log1 =
       Report \<lparr>rep_avgStraightness = None, rep_avgElbow = 0.1, rep_avgTension = 0,
               rep_maxTension = 0, rep_tipPct = 33, rep_midPct = 34, rep_frogPct = 33,
               rep_straightStatus = Good, rep_elbowStatus = Good, rep_shoulderStatus = Good,
               rep_distStatus = Good, rep_overall = overall log1,
               rep_overallStatus = overallStatus log1,
               rep_overallComment = overallComment log1, rep_distLabel = FullBow,
               rep_elbowLabel = ElbowProper\<rparr>"
    by (simp add: showDiagnoseReport_def ne aggr pct st)
  have ov: "overall log1 = 92 \<and> overallStatus log1 = Good"
    using showDiagnoseReport_overall [OF ne] unfolding rep by (auto simp add: rm wa)
  have "showDiagnoseReport log1 =
       Report \<lparr>rep_avgStraightness = None, rep_avgElbow = 0.1, rep_avgTension = 0,
               rep_maxTension = 0, rep_tipPct = 33, rep_midPct = 34, rep_frogPct = 33,
               rep_straightStatus = Good, rep_elbowStatus = Good, rep_shoulderStatus = Good,
               rep_distStatus = Good, rep_overall = 92, rep_overallStatus = Good,
               rep_overallComment = Excellent, rep_distLabel = FullBow,
               rep_elbowLabel = ElbowProper\<rparr>"
    by (simp add: rep ov overallComment_def)
  with ne rm wa show ?thesis by simp
qed

lemma segment_filter:
  "(case segment prev ps (filter (\<lambda>s. 8 \<le> length s) done_strokes) cur d of
      (strokes, c) \<Rightarrow> if 8 \<le> length c then strokes @ [c] else strokes)
   = filter (\<lambda>s. 8 \<le> length s) (segment_all prev ps done_strokes cur d)"
proof (induction ps arbitrary: prev done_strokes cur d)
  case Nil
  then show ?case by simp
next
  case (Cons p ps)
  let ?dx = "px p - px prev"
  show ?case
  proof (cases "\<bar>?dx\<bar> < 0.002")
    case True
    then show ?thesis
      using Cons.IH [of p done_strokes "cur @ [p]" d] by simp
  next
    case noise: False
    show ?thesis
    proof (cases "d \<noteq> 0 \<and> sgn ?dx \<noteq> sgn d")
      case True
      with noise show ?thesis
        using Cons.IH [of p "done_strokes @ [cur]" "[p]" ?dx]
        by (cases "8 \<le> length cur") (simp_all add: Let_def)
    next
      case False
      with noise show ?thesis
        using Cons.IH [of p done_strokes "cur @ [p]" ?dx] by (auto simp add: Let_def)
    qed
  qed
qed

lemma strokes_of_filter:
  "strokes_of wristTrail = filter (\<lambda>s. 8 \<le> length s) (all_strokes wristTrail)"
proof (cases wristTrail)
  case Nil
  then show ?thesis by (simp add: strokes_of_def all_strokes_def)
next
  case (Cons p0 ps)
  then show ?thesis
    using segment_filter [of p0 ps "[]" "[p0]" 0]
    by (simp add: strokes_of_def all_strokes_def split: prod.splits)
qed





text \<open>
  C3. For every wrist trail with fewer than 10 samples the straightness analyzer
  returns no score (null) and status good; and it returns the same result when none of
  the strokes of the trail has 8 samples or more.
\<close>

theorem computeBowStraightness_no_opinion:
  assumes "length wristTrail < 10 \<or> list_all (\<lambda>s. length s < 8) (all_strokes wristTrail)"
  shows "computeBowStraightness wristTrail =
           \<lparr>score = None, curvature = None, straightness_status = Good\<rparr>"
proof -
  have "strokes_of wristTrail = []" if "list_all (\<lambda>s. length s < 8) (all_strokes wristTrail)"
    using that by (auto simp add: strokes_of_filter filter_empty_conv list_all_iff)
  with assms show ?thesis
    by (auto simp add: computeBowStraightness_def no_score_def)
qed


lemma short_trail_length: "length short_trail < 10"
  by (simp add: short_trail_def trail_of_def)

lemma zigzag_trail_length: "\<not> length zigzag_trail < 10"
  by (simp add: zigzag_trail_def trail_of_def)

lemma zigzag_short_strokes: "list_all (\<lambda>s. length s < 8) (all_strokes zigzag_trail)"
  by (simp add: zigzag_trail_def trail_of_def all_strokes_def Let_def)

theorem computeBowStraightness_no_opinion_witness:
  "length short_trail < 10
   \<and> computeBowStraightness short_trail =
       \<lparr>score = None, curvature = None, straightness_status = Good\<rparr>
   \<and> \<not> length zigzag_trail < 10
   \<and> list_all (\<lambda>s. length s < 8) (all_strokes zigzag_trail)
   \<and> computeBowStraightness zigzag_trail =
       \<lparr>score = None, curvature = None, straightness_status = Good\<rparr>"
  using computeBowStraightness_no_opinion [of short_trail] computeBowStraightness_no_opinion [of zigzag_trail]
        short_trail_length zigzag_trail_length zigzag_short_strokes
  by simp










end
